theory Spec2Isabelle
  imports Complex_Main
begin

section \<open>Python numbers\<close>

text \<open>
  \<^verbatim>\<open>metrics.py\<close> computes with Python \<^verbatim>\<open>int\<close> (unbounded) and \<^verbatim>\<open>float\<close> (IEEE 754 binary64,
  round to nearest, ties to even). A finite float is modelled by the rational number it
  denotes; the two zeros are identified (no operation of the module tells them apart:
  there is no division by a float and \<^verbatim>\<open>-0.0 < 0\<close> is false).
\<close>

datatype pyfloat = Finite rat | PosInf | NegInf | NaN

datatype py_error = OverflowError | ValueError | ZeroDivisionError

text \<open>\<^verbatim>\<open>int.bit_length\<close>: the number of binary digits of a natural number.\<close>

fun bit_length :: "nat \<Rightarrow> nat" where
  "bit_length n = (if n = 0 then 0 else Suc (bit_length (n div 2)))"

declare bit_length.simps [simp del]

definition pow2 :: "int \<Rightarrow> rat" where
  "pow2 e = (if 0 \<le> e then 2 ^ nat e else 1 / 2 ^ nat (- e))"

text \<open>The binary exponent of a positive rational: \<open>2^e \<le> x < 2^(e+1)\<close>.\<close>

definition ilog2 :: "rat \<Rightarrow> int" where
  "ilog2 x =
     (if 1 \<le> x then int (bit_length (nat \<lfloor>x\<rfloor>)) - 1
      else let k = int (bit_length (nat \<lfloor>1 / x\<rfloor>))
           in if pow2 (1 - k) \<le> x then 1 - k else - k)"

definition round_half_even :: "rat \<Rightarrow> int" where
  "round_half_even r =
     (let f = \<lfloor>r\<rfloor>; d = r - of_int f
      in if d < 1 / 2 then f
         else if 1 / 2 < d then f + 1
         else if even f then f else f + 1)"

text \<open>
  Rounding a positive rational to 53 significant bits: \<open>round_exp\<close> is the exponent of
  its binade, and below \<open>2^-1022\<close> the spacing stays \<open>2^-1074\<close> (subnormal numbers). The
  exponent is not bounded above here.
\<close>

definition round_exp :: "rat \<Rightarrow> int" where
  "round_exp x = max (ilog2 x) (- 1022)"

definition round_pos :: "rat \<Rightarrow> rat" where
  "round_pos x =
     (let q = pow2 (round_exp x - 52)
      in of_int (round_half_even (x / q)) * q)"

text \<open>The binary64 value of an exact result: overflow gives an infinity.\<close>

definition round_binary64 :: "rat \<Rightarrow> pyfloat" where
  "round_binary64 x =
     (if x = 0 then Finite 0
      else let y = round_pos \<bar>x\<bar>
           in if pow2 1024 \<le> y then (if 0 < x then PosInf else NegInf)
              else Finite (if 0 < x then y else - y))"

text \<open>A decimal literal of the source, such as \<^verbatim>\<open>0.003\<close>, is the float nearest to it.\<close>

definition float_lit :: "rat \<Rightarrow> pyfloat" where
  "float_lit d = round_binary64 d"

text \<open>A value a float variable can hold: an infinity, NaN or a fixed point of the rounding.\<close>

fun is_binary64 :: "pyfloat \<Rightarrow> bool" where
  "is_binary64 (Finite x) = (round_binary64 x = Finite x)"
| "is_binary64 _ = True"

text \<open>A finite float that is not negative.\<close>

definition nonneg_finite :: "pyfloat \<Rightarrow> bool" where
  "nonneg_finite f = (case f of Finite y \<Rightarrow> 0 \<le> y | _ \<Rightarrow> False)"

text \<open>\<^verbatim>\<open>x + y\<close> on floats.\<close>

fun fadd :: "pyfloat \<Rightarrow> pyfloat \<Rightarrow> pyfloat" where
  "fadd (Finite x) (Finite y) = round_binary64 (x + y)"
| "fadd NaN _ = NaN"
| "fadd _ NaN = NaN"
| "fadd PosInf NegInf = NaN"
| "fadd NegInf PosInf = NaN"
| "fadd PosInf _ = PosInf"
| "fadd _ PosInf = PosInf"
| "fadd NegInf _ = NegInf"
| "fadd _ NegInf = NegInf"

text \<open>\<^verbatim>\<open>x * y\<close> on floats.\<close>

fun fmul :: "pyfloat \<Rightarrow> pyfloat \<Rightarrow> pyfloat" where
  "fmul (Finite x) (Finite y) = round_binary64 (x * y)"
| "fmul NaN _ = NaN"
| "fmul _ NaN = NaN"
| "fmul PosInf (Finite y) = (if y = 0 then NaN else if 0 < y then PosInf else NegInf)"
| "fmul NegInf (Finite y) = (if y = 0 then NaN else if 0 < y then NegInf else PosInf)"
| "fmul (Finite x) PosInf = (if x = 0 then NaN else if 0 < x then PosInf else NegInf)"
| "fmul (Finite x) NegInf = (if x = 0 then NaN else if 0 < x then NegInf else PosInf)"
| "fmul PosInf PosInf = PosInf"
| "fmul NegInf NegInf = PosInf"
| "fmul PosInf NegInf = NegInf"
| "fmul NegInf PosInf = NegInf"

text \<open>\<^verbatim>\<open>x < y\<close> and \<^verbatim>\<open>x <= y\<close> on floats: every comparison with NaN is false.\<close>

fun flt :: "pyfloat \<Rightarrow> pyfloat \<Rightarrow> bool" where
  "flt (Finite x) (Finite y) = (x < y)"
| "flt NaN _ = False"
| "flt _ NaN = False"
| "flt PosInf _ = False"
| "flt _ NegInf = False"
| "flt _ PosInf = True"
| "flt NegInf _ = True"

fun fle :: "pyfloat \<Rightarrow> pyfloat \<Rightarrow> bool" where
  "fle (Finite x) (Finite y) = (x \<le> y)"
| "fle NaN _ = False"
| "fle _ NaN = False"
| "fle _ PosInf = True"
| "fle NegInf _ = True"
| "fle PosInf _ = False"
| "fle _ NegInf = False"

text \<open>
  \<^verbatim>\<open>a / b\<close> on two ints (true division): the correctly rounded quotient, and
  \<^verbatim>\<open>OverflowError\<close> ("integer division result too large for a float") when it has no
  finite float.
\<close>

definition int_truediv :: "int \<Rightarrow> int \<Rightarrow> py_error + pyfloat" where
  "int_truediv a b =
     (if b = 0 then Inl ZeroDivisionError
      else case round_binary64 (of_int a / of_int b) of
             Finite y \<Rightarrow> Inr (Finite y)
           | _ \<Rightarrow> Inl OverflowError)"

section \<open>The instruments of \<^verbatim>\<open>prometheus_client\<close>\<close>

text \<open>
  The module builds its instruments from the classes \<^verbatim>\<open>Counter\<close>, \<^verbatim>\<open>Gauge\<close>,
  \<^verbatim>\<open>Histogram\<close> and \<^verbatim>\<open>Info\<close> of the package \<^verbatim>\<open>prometheus_client\<close>, whose code is not
  among the source files. Their state and operations are modelled from section 4.1 of
  the specification. A label vector is the list of the label values in the order of the
  declared label names; an instrument without labels uses the empty vector.
\<close>

type_synonym label_values = "string list"

type_synonym counter = "label_values \<rightharpoonup> pyfloat"

type_synonym gauge = "label_values \<rightharpoonup> pyfloat"

type_synonym info = "string \<rightharpoonup> string"

text \<open>The accumulator of a label vector reads 0 until the vector is first used.\<close>

definition child_value :: "counter \<Rightarrow> label_values \<Rightarrow> pyfloat" where
  "child_value c lv = (case c lv of None \<Rightarrow> Finite 0 | Some v \<Rightarrow> v)"

text \<open>
  Modelled from the spec: \<^verbatim>\<open>labels(...)\<close> of a Counter (class of \<^verbatim>\<open>prometheus_client\<close>, not
  under src/). "Two invocations with the same label vector must reference the same
  underlying accumulator"; the accumulator is created "with value 0 first, if absent".
\<close>

definition counter_labels :: "counter \<Rightarrow> label_values \<Rightarrow> counter" where
  "counter_labels c lv = (case c lv of None \<Rightarrow> c(lv \<mapsto> Finite 0) | Some v \<Rightarrow> c)"

text \<open>
  Modelled from the spec: \<^verbatim>\<open>Counter.inc(amount)\<close> on the child of a label vector (class of
  \<^verbatim>\<open>prometheus_client\<close>, not under src/). "Requires amount \<open>\<ge>\<close> 0 \<dots> adds amount to the
  accumulator keyed by the label vector". The package enforces the requirement: it raises
  \<^verbatim>\<open>ValueError\<close> when \<^verbatim>\<open>amount < 0\<close> and changes nothing; otherwise the accumulator
  becomes \<^verbatim>\<open>value + amount\<close>, a float addition.
\<close>

definition counter_inc :: "counter \<Rightarrow> label_values \<Rightarrow> pyfloat \<Rightarrow> py_error + counter" where
  "counter_inc c lv amount =
     (if flt amount (Finite 0) then Inl ValueError
      else Inr (c(lv \<mapsto> fadd (child_value c lv) amount)))"

text \<open>A sequence of \<^verbatim>\<open>inc\<close> calls on one label vector; the first exception ends it.\<close>

fun counter_inc_all :: "counter \<Rightarrow> label_values \<Rightarrow> pyfloat list \<Rightarrow> py_error + counter" where
  "counter_inc_all c lv [] = Inr c"
| "counter_inc_all c lv (a # as) =
     (case counter_inc c lv a of Inl e \<Rightarrow> Inl e | Inr c' \<Rightarrow> counter_inc_all c' lv as)"

text \<open>
  Modelled from the spec: \<^verbatim>\<open>Info.info(mapping)\<close> (class of \<^verbatim>\<open>prometheus_client\<close>, not under
  src/): "replaces the full key/value record \<dots> last write wins, no error".
\<close>

definition info_set :: "info \<Rightarrow> (string \<rightharpoonup> string) \<Rightarrow> info" where
  "info_set old val = val"

text \<open>
  Modelled from the spec: the state of one histogram time series (class \<^verbatim>\<open>Histogram\<close> of
  \<^verbatim>\<open>prometheus_client\<close>, not under src/): the upper bounds as registered, followed by the
  implicit \<open>+Infinity\<close> bound, one cumulative counter for each bound, the total count and
  the running sum.
\<close>

record histogram_child =
  upper_bounds :: "pyfloat list"
  bucket_counts :: "nat list"
  observation_count :: nat
  observation_sum :: pyfloat

type_synonym histogram = "label_values \<rightharpoonup> histogram_child"

definition new_histogram_child :: "pyfloat list \<Rightarrow> histogram_child" where
  "new_histogram_child bs =
     \<lparr>upper_bounds = bs @ [PosInf],
      bucket_counts = replicate (Suc (length bs)) 0,
      observation_count = 0,
      observation_sum = Finite 0\<rparr>"

text \<open>
  Modelled from the spec: \<^verbatim>\<open>Histogram.observe(value)\<close>: "increments every bucket counter
  whose bound is \<open>\<ge>\<close> value, increments total count, adds value to running sum".
\<close>

definition observe :: "histogram_child \<Rightarrow> pyfloat \<Rightarrow> histogram_child" where
  "observe h v =
     h\<lparr>bucket_counts :=
          map (\<lambda>(b, n). if fle v b then Suc n else n) (zip (upper_bounds h) (bucket_counts h)),
       observation_count := Suc (observation_count h),
       observation_sum := fadd (observation_sum h) v\<rparr>"

text \<open>Observing under a label vector of a histogram registered with the bounds \<open>bs\<close>.\<close>

definition histogram_observe ::
  "pyfloat list \<Rightarrow> histogram \<Rightarrow> label_values \<Rightarrow> pyfloat \<Rightarrow> histogram" where
  "histogram_observe bs h lv v =
     h(lv \<mapsto> observe (case h lv of None \<Rightarrow> new_histogram_child bs | Some ch \<Rightarrow> ch) v)"

section \<open>The instrument definitions of \<^verbatim>\<open>metrics.py\<close>\<close>

text \<open>
  One constructor call of the module: the name, the help text, the label names (empty
  when the call gives none) and, for a histogram, the \<^verbatim>\<open>buckets\<close> list as its decimal
  literals.
\<close>

datatype instrument =
    Info string string
  | Counter string string "string list"
  | Gauge string string
  | Histogram string string "string list" "rat list"

datatype instrument_kind = KInfo | KCounter | KGauge | KHistogram

fun instrument_name :: "instrument \<Rightarrow> string" where
  "instrument_name (Info n d) = n"
| "instrument_name (Counter n d ls) = n"
| "instrument_name (Gauge n d) = n"
| "instrument_name (Histogram n d ls bs) = n"

fun instrument_kind_of :: "instrument \<Rightarrow> instrument_kind" where
  "instrument_kind_of (Info n d) = KInfo"
| "instrument_kind_of (Counter n d ls) = KCounter"
| "instrument_kind_of (Gauge n d) = KGauge"
| "instrument_kind_of (Histogram n d ls bs) = KHistogram"

fun instrument_labelnames :: "instrument \<Rightarrow> string list" where
  "instrument_labelnames (Info n d) = []"
| "instrument_labelnames (Counter n d ls) = ls"
| "instrument_labelnames (Gauge n d) = []"
| "instrument_labelnames (Histogram n d ls bs) = ls"

fun instrument_buckets :: "instrument \<Rightarrow> rat list option" where
  "instrument_buckets (Histogram n d ls bs) = Some bs"
| "instrument_buckets _ = None"

text \<open>Lines 26 to 162 of the module, in the order of the file.\<close>

definition instrument_definitions :: "instrument list" where
  "instrument_definitions =
    [Info ''careplan_app'' ''Application information'',
     Counter ''careplan_order_created_total'' ''Total number of orders created'' [''status''],
     Histogram ''careplan_order_create_duration_seconds''
       ''Time spent creating an order (API response time)'' []
       [5 / 100, 1 / 10, 25 / 100, 5 / 10, 1, 25 / 10, 5, 10],
     Counter ''careplan_duplicate_detection_total'' ''Duplicate detection results by type''
       [''entity_type'', ''result''],
     Counter ''careplan_generation_total'' ''Total care plan generation attempts'' [''status''],
     Histogram ''careplan_generation_duration_seconds''
       ''Time spent generating care plans (including LLM call)'' []
       [1, 25 / 10, 5, 10, 20, 30, 60, 120],
     Gauge ''careplan_queue_size'' ''Number of care plans pending generation'',
     Counter ''careplan_queued_total'' ''Care plan generation tasks queued'' [''status''],
     Counter ''careplan_retry_total'' ''Care plan generation retries'' [],
     Counter ''careplan_llm_request_total'' ''Total LLM API requests'' [''provider'', ''status''],
     Histogram ''careplan_llm_request_duration_seconds'' ''LLM API request latency''
       [''provider'']
       [5 / 10, 1, 25 / 10, 5, 10, 20, 30, 60],
     Counter ''careplan_llm_tokens_total'' ''Total LLM tokens used''
       [''provider'', ''token_type''],
     Counter ''careplan_llm_cost_dollars_total'' ''Estimated LLM cost in dollars''
       [''provider'', ''model''],
     Counter ''careplan_api_request_total'' ''Total API requests''
       [''method'', ''endpoint'', ''status_code''],
     Histogram ''careplan_api_request_duration_seconds'' ''API request duration''
       [''method'', ''endpoint'']
       [1 / 100, 25 / 1000, 5 / 100, 1 / 10, 25 / 100, 5 / 10, 1, 25 / 10, 5],
     Counter ''careplan_api_errors_total'' ''Total API errors''
       [''method'', ''endpoint'', ''error_type''],
     Histogram ''careplan_db_query_duration_seconds'' ''Database query duration''
       [''operation'']
       [1 / 1000, 5 / 1000, 1 / 100, 25 / 1000, 5 / 100, 1 / 10, 25 / 100, 5 / 10],
     Gauge ''careplan_success_rate'' ''Rolling success rate of care plan generation (SLI)'',
     Gauge ''careplan_p95_latency_seconds'' ''p95 latency for care plan generation (SLI)'']"

text \<open>
  The table of section 4.1 of the specification, row by row: name, kind, label names and
  bucket boundaries.
\<close>

definition spec_instrument_table ::
  "(string \<times> instrument_kind \<times> string list \<times> rat list option) list" where
  "spec_instrument_table =
    [(''careplan_app'', KInfo, [], None),
     (''careplan_order_created_total'', KCounter, [''status''], None),
     (''careplan_order_create_duration_seconds'', KHistogram, [],
        Some [5 / 100, 1 / 10, 25 / 100, 5 / 10, 1, 25 / 10, 5, 10]),
     (''careplan_duplicate_detection_total'', KCounter, [''entity_type'', ''result''], None),
     (''careplan_generation_total'', KCounter, [''status''], None),
     (''careplan_generation_duration_seconds'', KHistogram, [],
        Some [1, 25 / 10, 5, 10, 20, 30, 60, 120]),
     (''careplan_queue_size'', KGauge, [], None),
     (''careplan_queued_total'', KCounter, [''status''], None),
     (''careplan_retry_total'', KCounter, [], None),
     (''careplan_llm_request_total'', KCounter, [''provider'', ''status''], None),
     (''careplan_llm_request_duration_seconds'', KHistogram, [''provider''],
        Some [5 / 10, 1, 25 / 10, 5, 10, 20, 30, 60]),
     (''careplan_llm_tokens_total'', KCounter, [''provider'', ''token_type''], None),
     (''careplan_llm_cost_dollars_total'', KCounter, [''provider'', ''model''], None),
     (''careplan_api_request_total'', KCounter, [''method'', ''endpoint'', ''status_code''], None),
     (''careplan_api_request_duration_seconds'', KHistogram, [''method'', ''endpoint''],
        Some [1 / 100, 25 / 1000, 5 / 100, 1 / 10, 25 / 100, 5 / 10, 1, 25 / 10, 5]),
     (''careplan_api_errors_total'', KCounter, [''method'', ''endpoint'', ''error_type''], None),
     (''careplan_db_query_duration_seconds'', KHistogram, [''operation''],
        Some [1 / 1000, 5 / 1000, 1 / 100, 25 / 1000, 5 / 100, 1 / 10, 25 / 100, 5 / 10]),
     (''careplan_success_rate'', KGauge, [], None),
     (''careplan_p95_latency_seconds'', KGauge, [], None)]"

definition instrument_row ::
  "instrument \<Rightarrow> string \<times> instrument_kind \<times> string list \<times> rat list option" where
  "instrument_row i =
     (instrument_name i, instrument_kind_of i, instrument_labelnames i, instrument_buckets i)"

text \<open>The bucket bounds a histogram is registered with: the floats of the literals.\<close>

definition bucket_bounds :: "instrument \<Rightarrow> pyfloat list" where
  "bucket_bounds i = (case instrument_buckets i of None \<Rightarrow> [] | Some bs \<Rightarrow> map float_lit bs)"

text \<open>
  The state of the module: one field for each module-level instrument, named as in the
  file.
\<close>

record registry =
  APP_INFO :: info
  ORDER_CREATED_TOTAL :: counter
  ORDER_CREATE_DURATION_SECONDS :: histogram
  DUPLICATE_DETECTION_TOTAL :: counter
  CARE_PLAN_GENERATION_TOTAL :: counter
  CARE_PLAN_GENERATION_DURATION_SECONDS :: histogram
  CARE_PLAN_QUEUE_SIZE :: gauge
  CARE_PLAN_QUEUED_TOTAL :: counter
  CARE_PLAN_RETRY_TOTAL :: counter
  LLM_REQUEST_TOTAL :: counter
  LLM_REQUEST_DURATION_SECONDS :: histogram
  LLM_TOKENS_USED_TOTAL :: counter
  LLM_COST_DOLLARS_TOTAL :: counter
  API_REQUEST_TOTAL :: counter
  API_REQUEST_DURATION_SECONDS :: histogram
  API_ERRORS_TOTAL :: counter
  DB_QUERY_DURATION_SECONDS :: histogram
  CARE_PLAN_SUCCESS_RATE :: gauge
  CARE_PLAN_P95_LATENCY_SECONDS :: gauge

text \<open>The registry when the module has been imported: nothing observed yet.\<close>

definition module_init :: registry where
  "module_init =
     \<lparr>APP_INFO = Map.empty,
      ORDER_CREATED_TOTAL = Map.empty,
      ORDER_CREATE_DURATION_SECONDS = Map.empty,
      DUPLICATE_DETECTION_TOTAL = Map.empty,
      CARE_PLAN_GENERATION_TOTAL = Map.empty,
      CARE_PLAN_GENERATION_DURATION_SECONDS = Map.empty,
      CARE_PLAN_QUEUE_SIZE = Map.empty,
      CARE_PLAN_QUEUED_TOTAL = Map.empty,
      CARE_PLAN_RETRY_TOTAL = Map.empty,
      LLM_REQUEST_TOTAL = Map.empty,
      LLM_REQUEST_DURATION_SECONDS = Map.empty,
      LLM_TOKENS_USED_TOTAL = Map.empty,
      LLM_COST_DOLLARS_TOTAL = Map.empty,
      API_REQUEST_TOTAL = Map.empty,
      API_REQUEST_DURATION_SECONDS = Map.empty,
      API_ERRORS_TOTAL = Map.empty,
      DB_QUERY_DURATION_SECONDS = Map.empty,
      CARE_PLAN_SUCCESS_RATE = Map.empty,
      CARE_PLAN_P95_LATENCY_SECONDS = Map.empty\<rparr>"

section \<open>The helper functions\<close>

text \<open>
  One entry of the pricing table, a dict with the keys \<^verbatim>\<open>"input"\<close> and \<^verbatim>\<open>"output"\<close>:
  dollars per 1000 tokens.
\<close>

record pricing =
  pricing_input :: pyfloat
  pricing_output :: pyfloat

definition LLM_PRICING :: "(string \<times> pricing) list" where
  "LLM_PRICING =
    [(''claude-sonnet-4-20250514'',
        \<lparr>pricing_input = float_lit (3 / 1000), pricing_output = float_lit (15 / 1000)\<rparr>),
     (''claude-3-5-sonnet-20241022'',
        \<lparr>pricing_input = float_lit (3 / 1000), pricing_output = float_lit (15 / 1000)\<rparr>),
     (''claude-3-opus-20240229'',
        \<lparr>pricing_input = float_lit (15 / 1000), pricing_output = float_lit (75 / 1000)\<rparr>),
     (''gpt-4o'', \<lparr>pricing_input = float_lit (5 / 1000), pricing_output = float_lit (15 / 1000)\<rparr>),
     (''gpt-4o-mini'',
        \<lparr>pricing_input = float_lit (15 / 100000), pricing_output = float_lit (6 / 10000)\<rparr>),
     (''gpt-4-turbo'', \<lparr>pricing_input = float_lit (1 / 100), pricing_output = float_lit (3 / 100)\<rparr>)]"

text \<open>
  Lines 189 to 191 of \<^verbatim>\<open>record_llm_cost\<close>: the value of the local \<^verbatim>\<open>cost\<close>.
  \<^verbatim>\<open>LLM_PRICING.get(model, default)\<close> is the lookup with the default entry; the two true
  divisions can raise \<^verbatim>\<open>OverflowError\<close>.
\<close>

definition llm_cost :: "string \<Rightarrow> int \<Rightarrow> int \<Rightarrow> py_error + pyfloat" where
  "llm_cost model prompt_tokens completion_tokens =
     (let pricing = (case map_of LLM_PRICING model of
                       Some p \<Rightarrow> p
                     | None \<Rightarrow> \<lparr>pricing_input = float_lit (1 / 100), pricing_output = float_lit (3 / 100)\<rparr>)
      in case int_truediv prompt_tokens 1000 of
           Inl e \<Rightarrow> Inl e
         | Inr a \<Rightarrow>
             (case int_truediv completion_tokens 1000 of
                Inl e \<Rightarrow> Inl e
              | Inr b \<Rightarrow> Inr (fadd (fmul a (pricing_input pricing)) (fmul b (pricing_output pricing)))))"

text \<open>
  \<^verbatim>\<open>record_llm_cost\<close>, statement by statement: the exception that leaves the function, if
  any, and the registry after the call. Lines 189 to 191 can raise before anything is
  touched. On line 193 \<^verbatim>\<open>labels(...)\<close> runs first and creates the accumulator of
  (provider, model) at 0 when it is absent; then \<^verbatim>\<open>inc(cost)\<close> either raises, which leaves
  the counter as \<^verbatim>\<open>labels\<close> left it, or adds the cost.
\<close>

definition record_llm_cost_call ::
  "registry \<Rightarrow> string \<Rightarrow> string \<Rightarrow> int \<Rightarrow> int \<Rightarrow> py_error option \<times> registry" where
  "record_llm_cost_call reg provider model prompt_tokens completion_tokens =
     (case llm_cost model prompt_tokens completion_tokens of
        Inl e \<Rightarrow> (Some e, reg)
      | Inr cost \<Rightarrow>
          (let child = counter_labels (LLM_COST_DOLLARS_TOTAL reg) [provider, model]
           in case counter_inc child [provider, model] cost of
                Inl e \<Rightarrow> (Some e, reg\<lparr>LLM_COST_DOLLARS_TOTAL := child\<rparr>)
              | Inr c \<Rightarrow> (None, reg\<lparr>LLM_COST_DOLLARS_TOTAL := c\<rparr>)))"

text \<open>
  The outcome of the call as the caller sees it: the function returns nothing, so the
  result is the registry after a call that returns, or the exception of a call that
  raises.
\<close>

definition record_llm_cost ::
  "registry \<Rightarrow> string \<Rightarrow> string \<Rightarrow> int \<Rightarrow> int \<Rightarrow> py_error + registry" where
  "record_llm_cost reg provider model prompt_tokens completion_tokens =
     (case record_llm_cost_call reg provider model prompt_tokens completion_tokens of
        (None, reg') \<Rightarrow> Inr reg'
      | (Some e, reg') \<Rightarrow> Inl e)"

text \<open>\<^verbatim>\<open>init_app_info\<close>: the dict literal has the two keys of the source.\<close>

definition init_app_info :: "registry \<Rightarrow> string \<Rightarrow> string \<Rightarrow> registry" where
  "init_app_info reg version environment =
     reg\<lparr>APP_INFO :=
           info_set (APP_INFO reg) [''version'' \<mapsto> version, ''environment'' \<mapsto> environment]\<rparr>"

section \<open>Properties of the float model\<close>

lemma floor_rat_divide_numeral [simp]:
  "\<lfloor>numeral a / numeral b :: rat\<rfloor> = numeral a div numeral b"
  by (metis floor_divide_of_int_eq of_int_numeral)

lemma bit_length_bounds:
  "0 < n \<Longrightarrow> 2 ^ (bit_length n - 1) \<le> n \<and> n < 2 ^ bit_length n"
proof (induction n rule: bit_length.induct)
  case (1 n)
  show ?case
  proof (cases "n div 2 = 0")
    case True
    with 1(2) have "n = 1" by (simp add: div_eq_0_iff) 
    then show ?thesis by (simp add: bit_length.simps)
  next
    case False
    then have pos: "0 < n div 2" by simp
    from 1(2) have n0: "n \<noteq> 0" by simp
    from 1(1)[OF n0 pos] have ih: "2 ^ (bit_length (n div 2) - 1) \<le> n div 2" "n div 2 < 2 ^ bit_length (n div 2)"
      by simp_all
    have bl: "bit_length n = Suc (bit_length (n div 2))"
      using n0 by (subst bit_length.simps) simp
    have b1: "0 < bit_length (n div 2)"
      using pos by (subst bit_length.simps) simp
    then obtain k where k: "bit_length (n div 2) = Suc k" by (cases "bit_length (n div 2)") auto
    from ih k have "2 * 2 ^ k \<le> 2 * (n div 2)" by simp
    then have lo: "2 ^ Suc k \<le> n" by (simp; linarith)
    from ih k have "Suc (n div 2) \<le> 2 ^ Suc k" by simp
    then have "2 * Suc (n div 2) \<le> 2 * 2 ^ Suc k" by simp
    then have hi: "n < 2 ^ Suc (Suc k)" by (simp; linarith)
    show ?thesis using lo hi by (simp add: bl k)
  qed
qed

lemma pow2_eq: "pow2 e = 2 powi e"
  by (simp add: pow2_def power_int_def field_simps)

lemma pow2_pos [simp]: "0 < pow2 e"
  by (simp add: pow2_eq)

lemma pow2_add: "pow2 (a + b) = pow2 a * pow2 b"
  by (simp add: pow2_eq power_int_add)

lemma pow2_mono: "a \<le> b \<Longrightarrow> pow2 a \<le> pow2 b"
  by (simp add: pow2_eq power_int_increasing)

lemma pow2_strict_mono: "a < b \<Longrightarrow> pow2 a < pow2 b"
  by (simp add: pow2_eq power_int_strict_increasing)

lemma pow2_le_iff: "pow2 a \<le> pow2 b \<longleftrightarrow> a \<le> b"
  by (metis pow2_mono pow2_strict_mono not_le)

lemma pow2_less_iff: "pow2 a < pow2 b \<longleftrightarrow> a < b"
  by (metis pow2_mono pow2_strict_mono not_le)

lemma pow2_nat: "pow2 (int n) = 2 ^ n"
  by (simp add: pow2_def)

lemma pow2_Suc: "pow2 (e + 1) = 2 * pow2 e"
  by (simp add: pow2_eq power_int_add)

lemma bit_length_pos: "0 < n \<Longrightarrow> 0 < bit_length n"
  by (subst bit_length.simps) simp

lemma bit_length_rat_bounds:
  assumes "0 < n"
  shows "pow2 (int (bit_length n) - 1) \<le> of_nat n" and "(of_nat n :: rat) + 1 \<le> pow2 (int (bit_length n))"
proof -
  from bit_length_pos[OF assms] obtain k where k: "bit_length n = Suc k"
    by (cases "bit_length n") auto
  from bit_length_bounds[OF assms] k have lo: "2 ^ k \<le> n" and hi: "Suc n \<le> 2 ^ Suc k"
    by simp_all
  have "(of_nat (2 ^ k) :: rat) \<le> of_nat n" using lo by (simp only: of_nat_le_iff)
  then show "pow2 (int (bit_length n) - 1) \<le> of_nat n"
    by (simp add: k pow2_def)
  have "(of_nat (Suc n) :: rat) \<le> of_nat (2 ^ Suc k)" using hi by (simp only: of_nat_le_iff)
  then show "(of_nat n :: rat) + 1 \<le> pow2 (int (bit_length n))"
    unfolding pow2_nat k by (simp add: add.commute)
qed

lemma ilog2_bounds:
  assumes "0 < x"
  shows "pow2 (ilog2 x) \<le> x" and "x < pow2 (ilog2 x + 1)"
proof -
  have "pow2 (ilog2 x) \<le> x \<and> x < pow2 (ilog2 x + 1)"
  proof (cases "1 \<le> x")
    case True
    define n where "n = nat \<lfloor>x\<rfloor>"
    have n1: "0 < n" using True by (simp add: n_def)
    have nx: "(of_nat n :: rat) = of_int \<lfloor>x\<rfloor>" using True by (simp add: n_def)
    have e: "ilog2 x = int (bit_length n) - 1" using True by (simp add: ilog2_def n_def)
    from bit_length_rat_bounds[OF n1] nx
    have "pow2 (ilog2 x) \<le> of_int \<lfloor>x\<rfloor>" "of_int \<lfloor>x\<rfloor> + 1 \<le> pow2 (ilog2 x + 1)"
      by (simp_all add: e)
    moreover have "of_int \<lfloor>x\<rfloor> \<le> x" "x < of_int \<lfloor>x\<rfloor> + 1" by linarith+
    ultimately show ?thesis by linarith
  next
    case False
    define y where "y = 1 / x"
    have y1: "1 < y" using False assms by (simp add: y_def)
    have xy: "x = 1 / y" by (simp add: y_def)
    define n where "n = nat \<lfloor>y\<rfloor>"
    have n1: "0 < n" using y1 by (simp add: n_def)
    have ny: "(of_nat n :: rat) = of_int \<lfloor>y\<rfloor>" using y1 by (simp add: n_def)
    define k where "k = int (bit_length n)"
    from bit_length_rat_bounds[OF n1] ny
    have b: "pow2 (k - 1) \<le> of_int \<lfloor>y\<rfloor>" "of_int \<lfloor>y\<rfloor> + 1 \<le> pow2 k"
      by (simp_all add: k_def)
    have fl: "of_int \<lfloor>y\<rfloor> \<le> y" "y < of_int \<lfloor>y\<rfloor> + 1" by linarith+
    have ylo: "pow2 (k - 1) \<le> y" and yhi: "y < pow2 k" using b fl by linarith+
    have inv: "pow2 (- j) = 1 / pow2 j" for j
      by (simp add: pow2_eq power_int_minus field_simps)
    have xhi: "x \<le> pow2 (1 - k)"
    proof -
      have "1 / y \<le> 1 / pow2 (k - 1)" using ylo by (simp add: frac_le)
      then show ?thesis using inv[of "k - 1"] by (simp add: xy)
    qed
    have xlo: "pow2 (- k) < x"
    proof -
      have "1 / pow2 k < 1 / y" using yhi y1 by (simp add: frac_less2)
      then show ?thesis using inv[of k] by (simp add: xy)
    qed
    have e: "ilog2 x = (if pow2 (1 - k) \<le> x then 1 - k else - k)"
      using False by (simp add: ilog2_def Let_def k_def n_def y_def)
    show ?thesis
    proof (cases "pow2 (1 - k) \<le> x")
      case True
      have "pow2 (1 - k) < pow2 (1 - k + 1)" by (simp add: pow2_less_iff)
      with True xhi show ?thesis by (simp add: e)
    next
      case False
      then show ?thesis using xlo by (simp add: e)
    qed
  qed
  then show "pow2 (ilog2 x) \<le> x" and "x < pow2 (ilog2 x + 1)" by simp_all
qed

lemma ilog2_unique:
  assumes "0 < x" "pow2 e \<le> x" "x < pow2 (e + 1)"
  shows "ilog2 x = e"
proof -
  from ilog2_bounds[OF assms(1)] assms(2,3)
  have "pow2 (ilog2 x) < pow2 (e + 1)" "pow2 e < pow2 (ilog2 x + 1)" by linarith+
  then show ?thesis by (simp add: pow2_less_iff)
qed

lemma ilog2_mono:
  assumes "0 < x" "x \<le> y"
  shows "ilog2 x \<le> ilog2 y"
proof -
  have y: "0 < y" using assms by linarith
  from ilog2_bounds[OF assms(1)] ilog2_bounds[OF y] assms(2)
  have "pow2 (ilog2 x) < pow2 (ilog2 y + 1)" by linarith
  then show ?thesis by (simp add: pow2_less_iff)
qed

lemma rhe_of_int [simp]: "round_half_even (of_int n) = n"
  by (simp add: round_half_even_def)

lemma rhe_cases:
  "round_half_even r = \<lfloor>r\<rfloor> \<and> r - of_int \<lfloor>r\<rfloor> \<le> 1 / 2
   \<or> round_half_even r = \<lfloor>r\<rfloor> + 1 \<and> 1 / 2 \<le> r - of_int \<lfloor>r\<rfloor>"
  by (auto simp: round_half_even_def Let_def)

lemma rhe_mono:
  assumes "r \<le> s"
  shows "round_half_even r \<le> round_half_even s"
proof (cases "\<lfloor>r\<rfloor> = \<lfloor>s\<rfloor>")
  case True
  have "r - of_int \<lfloor>r\<rfloor> \<le> s - of_int \<lfloor>s\<rfloor>" using assms True by simp
  then show ?thesis using True
    by (auto simp: round_half_even_def Let_def)
next
  case False
  have "\<lfloor>r\<rfloor> \<le> \<lfloor>s\<rfloor>" using assms by (rule floor_mono)
  with False have "\<lfloor>r\<rfloor> + 1 \<le> \<lfloor>s\<rfloor>" by simp
  moreover have "round_half_even r \<le> \<lfloor>r\<rfloor> + 1" using rhe_cases[of r] by auto
  moreover have "\<lfloor>s\<rfloor> \<le> round_half_even s" using rhe_cases[of s] by auto
  ultimately show ?thesis by linarith
qed

lemma rhe_ge: "of_int a \<le> r \<Longrightarrow> a \<le> round_half_even r"
  using rhe_mono[of "of_int a" r] by simp

lemma rhe_le: "r \<le> of_int b \<Longrightarrow> round_half_even r \<le> b"
  using rhe_mono[of r "of_int b"] by simp

lemma round_pos_alt:
  "round_pos x = of_int (round_half_even (x / pow2 (round_exp x - 52))) * pow2 (round_exp x - 52)"
  by (simp add: round_pos_def Let_def)

lemma pow2_split: "pow2 a = pow2 (a - b) * pow2 b"
  using pow2_add[of "a - b" b] by simp

lemma pow2_of_int: "0 \<le> j \<Longrightarrow> pow2 j = of_int (2 ^ nat j)"
  by (simp add: pow2_def)

lemma pow2_nonneg [simp]: "0 \<le> pow2 e"
  using pow2_pos[of e] by linarith

lemma pow2_53: "pow2 53 = of_int (2 ^ 53)" and pow2_52: "pow2 52 = of_int (2 ^ 52)"
  by (simp_all add: pow2_def)

lemma round_pos_nonneg: "0 < x \<Longrightarrow> 0 \<le> round_pos x"
proof -
  assume x: "0 < x"
  have "0 \<le> x / pow2 (round_exp x - 52)" using x by (simp add: less_imp_le)
  then have "0 \<le> round_half_even (x / pow2 (round_exp x - 52))" using rhe_ge[of 0] by simp
  then show ?thesis by (simp add: round_pos_alt)
qed

lemma round_pos_upper:
  assumes "0 < x"
  shows "round_pos x \<le> pow2 (round_exp x + 1)"
proof -
  let ?e = "round_exp x" and ?q = "pow2 (round_exp x - 52)"
  have "x < pow2 (ilog2 x + 1)" using ilog2_bounds[OF assms] by simp
  also have "\<dots> \<le> pow2 (?e + 1)" by (simp add: pow2_le_iff round_exp_def)
  also have "\<dots> = pow2 53 * ?q" using pow2_split[of "?e + 1" "?e - 52"] by simp
  finally have "x / ?q < pow2 53" by (simp add: pos_divide_less_eq)
  then have "x / ?q \<le> of_int (2 ^ 53)" by (simp only: pow2_53)
  then have "round_half_even (x / ?q) \<le> 2 ^ 53" by (rule rhe_le)
  then have "(of_int (round_half_even (x / ?q)) :: rat) \<le> of_int (2 ^ 53)"
    by (simp only: of_int_le_iff)
  then have "of_int (round_half_even (x / ?q)) * ?q \<le> pow2 53 * ?q"
    unfolding pow2_53 by (rule mult_right_mono) simp
  also have "pow2 53 * ?q = pow2 (?e + 1)" using pow2_split[of "?e + 1" "?e - 52"] by simp
  finally show ?thesis by (simp add: round_pos_alt)
qed

lemma round_pos_lower:
  assumes "0 < x" "- 1022 \<le> ilog2 x"
  shows "pow2 (ilog2 x) \<le> round_pos x"
proof -
  have e: "round_exp x = ilog2 x" using assms(2) by (simp add: round_exp_def)
  let ?e = "ilog2 x" and ?q = "pow2 (ilog2 x - 52)"
  have s: "pow2 ?e = pow2 52 * ?q" using pow2_split[of "?e" "?e - 52"] by simp
  have "pow2 52 * ?q \<le> x" using ilog2_bounds[OF assms(1)] s by simp
  then have "pow2 52 \<le> x / ?q" by (simp add: pos_le_divide_eq)
  then have "of_int (2 ^ 52) \<le> x / ?q" by (simp only: pow2_52)
  then have "2 ^ 52 \<le> round_half_even (x / ?q)" by (rule rhe_ge)
  then have "(of_int (2 ^ 52) :: rat) \<le> of_int (round_half_even (x / ?q))"
    by (simp only: of_int_le_iff)
  then have "pow2 52 * ?q \<le> of_int (round_half_even (x / ?q)) * ?q"
    unfolding pow2_52 by (rule mult_right_mono) simp
  then show ?thesis using s by (simp add: round_pos_alt e)
qed

lemma round_pos_mono:
  assumes "0 < x" "x \<le> y"
  shows "round_pos x \<le> round_pos y"
proof -
  have y: "0 < y" using assms by linarith
  have le: "round_exp x \<le> round_exp y" using ilog2_mono[OF assms] by (simp add: round_exp_def)
  show ?thesis
  proof (cases "round_exp x = round_exp y")
    case True
    let ?q = "pow2 (round_exp y - 52)"
    have "x / ?q \<le> y / ?q" using assms(2) by (simp add: divide_right_mono)
    then have "round_half_even (x / ?q) \<le> round_half_even (y / ?q)" by (rule rhe_mono)
    then have "(of_int (round_half_even (x / ?q)) :: rat) \<le> of_int (round_half_even (y / ?q))"
      by (simp only: of_int_le_iff)
    then show ?thesis by (simp add: round_pos_alt True)
  next
    case False
    with le have lt: "round_exp x + 1 \<le> round_exp y" by simp
    then have iy: "- 1022 \<le> ilog2 y" "round_exp y = ilog2 y" by (auto simp: round_exp_def)
    have "round_pos x \<le> pow2 (round_exp x + 1)" by (rule round_pos_upper[OF assms(1)])
    also have "\<dots> \<le> pow2 (ilog2 y)" using lt iy by (simp add: pow2_le_iff)
    also have "\<dots> \<le> round_pos y" by (rule round_pos_lower[OF y iy(1)])
    finally show ?thesis .
  qed
qed

lemma round_pos_fixed:
  assumes "0 < r" "r = of_int m * pow2 k" "- 1074 \<le> k" "r < pow2 (k + 53)"
  shows "round_pos r = r"
proof -
  define e where "e = round_exp r"
  have "pow2 (ilog2 r) < pow2 (k + 53)" using ilog2_bounds(1)[OF assms(1)] assms(4) by linarith
  then have "ilog2 r < k + 53" by (simp add: pow2_less_iff)
  with assms(3) have ek: "e - 52 \<le> k" by (simp add: round_exp_def e_def)
  define j where "j = k - (e - 52)"
  have j0: "0 \<le> j" using ek by (simp add: j_def)
  have ne: "pow2 (e - 52) \<noteq> 0" using pow2_pos[of "e - 52"] by linarith
  have pk: "pow2 k = pow2 j * pow2 (e - 52)" using pow2_split[of k "e - 52"] by (simp add: j_def)
  have "r = of_int m * pow2 j * pow2 (e - 52)" by (simp only: assms(2) pk mult.assoc)
  then have "r / pow2 (e - 52) = of_int m * pow2 j" using ne by simp
  also have "\<dots> = of_int (m * 2 ^ nat j)" by (simp add: pow2_of_int[OF j0])
  finally have q: "r / pow2 (e - 52) = of_int (m * 2 ^ nat j)" .
  have "round_pos r = of_int (round_half_even (r / pow2 (e - 52))) * pow2 (e - 52)"
    by (simp only: round_pos_alt e_def)
  also have "\<dots> = of_int (m * 2 ^ nat j) * pow2 (e - 52)"
    by (simp only: q rhe_of_int)
  also have "\<dots> = r / pow2 (e - 52) * pow2 (e - 52)" by (simp only: q)
  also have "\<dots> = r" using ne by simp
  finally show ?thesis .
qed

lemma round_pos_idem:
  assumes "0 < x" "0 < round_pos x"
  shows "round_pos (round_pos x) = round_pos x"
proof -
  let ?k = "round_exp x - 52"
  define n where "n = round_half_even (x / pow2 ?k)"
  have r: "round_pos x = of_int n * pow2 ?k" by (simp add: round_pos_alt n_def)
  have k: "- 1074 \<le> ?k" by (simp add: round_exp_def)
  have up: "round_pos x \<le> pow2 (?k + 53)" using round_pos_upper[OF assms(1)] by (simp add: add.commute)
  show ?thesis
  proof (cases "round_pos x = pow2 (?k + 53)")
    case True
    have "pow2 (?k + 53) = of_int 1 * pow2 (?k + 53)" by simp
    then have r': "round_pos x = of_int 1 * pow2 (?k + 53)" using True by simp
    have "round_pos x < pow2 (?k + 53 + 53)" unfolding True by (simp add: pow2_less_iff)
    from round_pos_fixed[OF assms(2) r' _ this] k show ?thesis by simp
  next
    case False
    with up have "round_pos x < pow2 (?k + 53)" by simp
    from round_pos_fixed[OF assms(2) r k this] show ?thesis .
  qed
qed

lemma round_binary64_zero [simp]: "round_binary64 0 = Finite 0"
  by (simp add: round_binary64_def)

lemma round_binary64_pos:
  "0 < x \<Longrightarrow> round_binary64 x =
     (if pow2 1024 \<le> round_pos x then PosInf else Finite (round_pos x))"
  by (simp add: round_binary64_def Let_def)

lemma round_binary64_neg:
  "x < 0 \<Longrightarrow> round_binary64 x =
     (if pow2 1024 \<le> round_pos (- x) then NegInf else Finite (- round_pos (- x)))"
  by (simp add: round_binary64_def Let_def)

lemma round_binary64_valid: "is_binary64 (round_binary64 x)"
proof -
  have fixp: "round_binary64 y = Finite y" if "0 < x'" "y = round_pos x'" "\<not> pow2 1024 \<le> y" for x' y
  proof (cases "y = 0")
    case True
    then show ?thesis by simp
  next
    case False
    with round_pos_nonneg[OF that(1)] that(2) have y: "0 < y" by simp
    then have "round_pos y = y" using round_pos_idem[OF that(1)] that(2) by simp
    then show ?thesis using y that(3) by (simp add: round_binary64_pos)
  qed
  have fixn: "round_binary64 (- y) = Finite (- y)" if "0 < x'" "y = round_pos x'" "\<not> pow2 1024 \<le> y" for x' y
  proof (cases "y = 0")
    case True
    then show ?thesis by simp
  next
    case False
    with round_pos_nonneg[OF that(1)] that(2) have y: "0 < y" by simp
    then have "round_pos y = y" using round_pos_idem[OF that(1)] that(2) by simp
    then show ?thesis using y that(3) by (simp add: round_binary64_neg)
  qed
  consider "x = 0" | "0 < x" | "x < 0" by linarith
  then show ?thesis
  proof cases
    case 1
    then show ?thesis by simp
  next
    case 2
    then show ?thesis using fixp[OF 2 refl] by (simp add: round_binary64_pos)
  next
    case 3
    then have "0 < - x" by simp
    from fixn[OF this refl] 3 show ?thesis by (simp add: round_binary64_neg)
  qed
qed

lemma round_binary64_mono:
  assumes "x \<le> y"
  shows "fle (round_binary64 x) (round_binary64 y)"
proof -
  consider "0 < x" | "x = 0" | "x < 0" by linarith
  then show ?thesis
  proof cases
    case 1
    then have y: "0 < y" using assms by linarith
    from round_pos_mono[OF 1 assms] show ?thesis
      by (simp add: round_binary64_pos 1 y)
  next
    case 2
    consider "y = 0" | "0 < y" using assms 2 by linarith
    then show ?thesis
    proof cases
      case 1
      then show ?thesis using 2 by simp
    next
      case 2
      from round_pos_nonneg[OF 2] \<open>x = 0\<close> show ?thesis
        by (simp add: round_binary64_pos 2)
    qed
  next
    case 3
    then have nx: "0 < - x" by simp
    consider "y = 0" | "0 < y" | "y < 0" by linarith
    then show ?thesis
    proof cases
      case 1
      from round_pos_nonneg[OF nx] show ?thesis
        by (simp add: round_binary64_neg 3 1)
    next
      case 2
      from round_pos_nonneg[OF nx] round_pos_nonneg[OF 2] show ?thesis
        by (simp add: round_binary64_neg 3 round_binary64_pos 2)
    next
      case 3
      then have ny: "0 < - y" by simp
      have "- y \<le> - x" using assms by simp
      from round_pos_mono[OF ny this] show ?thesis
        by (simp add: round_binary64_neg 3 \<open>x < 0\<close>)
    qed
  qed
qed

lemma round_binary64_overflow:
  assumes "pow2 1024 \<le> x"
  shows "round_binary64 x = PosInf"
proof -
  have x: "0 < x" using pow2_pos[of 1024] assms by linarith
  have "pow2 1024 < pow2 (ilog2 x + 1)" using ilog2_bounds(2)[OF x] assms by linarith
  then have e: "1024 \<le> ilog2 x" by (simp add: pow2_less_iff)
  then have "pow2 1024 \<le> pow2 (ilog2 x)" by (simp add: pow2_le_iff)
  also have "\<dots> \<le> round_pos x" using round_pos_lower[OF x] e by simp
  finally show ?thesis by (simp add: round_binary64_pos x)
qed

lemma round_pos_below:
  assumes "0 < x" "x < pow2 1023"
  shows "round_pos x < pow2 1024"
proof -
  have "pow2 (ilog2 x) < pow2 1023" using ilog2_bounds(1)[OF assms(1)] assms(2) by linarith
  then have "ilog2 x < 1023" by (simp add: pow2_less_iff)
  then have "round_exp x + 1 \<le> 1023" by (simp add: round_exp_def)
  then have "pow2 (round_exp x + 1) \<le> pow2 1023" by (simp only: pow2_le_iff)
  moreover have "pow2 1023 < pow2 1024" by (simp add: pow2_less_iff)
  ultimately show ?thesis using round_pos_upper[OF assms(1)] by linarith
qed

lemma round_binary64_finite:
  assumes "0 \<le> x" "x < pow2 1023"
  shows "\<exists>y. 0 \<le> y \<and> round_binary64 x = Finite y"
proof (cases "x = 0")
  case True
  then show ?thesis by simp
next
  case False
  with assms have x: "0 < x" by simp
  from round_pos_below[OF x assms(2)] round_pos_nonneg[OF x] show ?thesis
    by (simp add: round_binary64_pos x)
qed

lemma flt_fle: "fle a b \<Longrightarrow> \<not> flt b a"
  by (cases a; cases b) auto

lemma round_binary64_nonneg: "0 \<le> x \<Longrightarrow> fle (Finite 0) (round_binary64 x)"
  using round_binary64_mono[of 0 x] by simp

lemma fadd_nonneg:
  "fle (Finite 0) a \<Longrightarrow> fle (Finite 0) b \<Longrightarrow> fle (Finite 0) (fadd a b)"
  by (cases a; cases b) (auto intro: round_binary64_nonneg)

lemma fmul_nonneg:
  "fle (Finite 0) (Finite x) \<Longrightarrow> fle (Finite 0) (Finite y) \<Longrightarrow> fle (Finite 0) (fmul (Finite x) (Finite y))"
  by (auto intro: round_binary64_nonneg)

lemma fadd_valid: "is_binary64 a \<Longrightarrow> is_binary64 b \<Longrightarrow> is_binary64 (fadd a b)"
  by (cases a; cases b) (auto simp: round_binary64_valid)

lemma fadd_never_decreases:
  assumes "is_binary64 a" "\<not> flt b (Finite 0)"
  shows "\<not> flt (fadd a b) a"
proof (cases a)
  case (Finite x)
  show ?thesis
  proof (cases b)
    case (Finite y)
    with assms(2) have "x \<le> x + y" by simp
    from round_binary64_mono[OF this] assms(1) \<open>a = Finite x\<close>
    have "fle a (fadd a b)" by (simp add: Finite)
    then show ?thesis by (rule flt_fle)
  qed (use Finite assms in auto)
qed (cases b; simp)+

lemma fadd_zero_right: "is_binary64 a \<Longrightarrow> fadd a (Finite 0) = a"
  by (cases a) auto

lemma fadd_zero_left: "is_binary64 a \<Longrightarrow> fadd (Finite 0) a = a"
  by (cases a) auto

text \<open>Evaluating the rounding on numerals.\<close>

lemmas round_binary64_eval =
  round_binary64_def round_pos_def round_exp_def ilog2_def bit_length.simps pow2_def
  round_half_even_def Let_def

lemma lit_0_003: "round_binary64 (3 / 1000) = Finite (3458764513820541 / 1152921504606846976)"
  by (simp add: round_binary64_eval)

lemma lit_0_015: "round_binary64 (3 / 200) = Finite (1080863910568919 / 72057594037927936)"
  by (simp add: round_binary64_eval)

lemma lit_0_075: "round_binary64 (3 / 40) = Finite (5404319552844595 / 72057594037927936)"
  by (simp add: round_binary64_eval)

lemma lit_0_005: "round_binary64 (1 / 200) = Finite (5764607523034235 / 1152921504606846976)"
  by (simp add: round_binary64_eval)

lemma lit_0_00015: "round_binary64 (3 / 20000) = Finite (5534023222112865 / 36893488147419103232)"
  by (simp add: round_binary64_eval)

lemma lit_0_0006: "round_binary64 (3 / 5000) = Finite (5534023222112865 / 9223372036854775808)"
  by (simp add: round_binary64_eval)

lemma lit_0_01: "round_binary64 (1 / 100) = Finite (5764607523034235 / 576460752303423488)"
  by (simp add: round_binary64_eval)

lemma lit_0_03: "round_binary64 (3 / 100) = Finite (1080863910568919 / 36028797018963968)"
  by (simp add: round_binary64_eval)

lemma lit_0_001: "round_binary64 (1 / 1000) = Finite (1152921504606847 / 1152921504606846976)"
  by (simp add: round_binary64_eval)

lemma lit_0_025: "round_binary64 (1 / 40) = Finite (3602879701896397 / 144115188075855872)"
  by (simp add: round_binary64_eval)

lemma lit_0_05: "round_binary64 (1 / 20) = Finite (3602879701896397 / 72057594037927936)"
  by (simp add: round_binary64_eval)

lemma lit_0_1: "round_binary64 (1 / 10) = Finite (3602879701896397 / 36028797018963968)"
  by (simp add: round_binary64_eval)

lemma lit_0_25: "round_binary64 (1 / 4) = Finite (1 / 4)"
  by (simp add: round_binary64_eval)

lemma lit_0_5: "round_binary64 (1 / 2) = Finite (1 / 2)"
  by (simp add: round_binary64_eval)

lemma lit_1_0: "round_binary64 (1) = Finite (1)"
  by (simp add: round_binary64_eval)

lemma lit_2_5: "round_binary64 (5 / 2) = Finite (5 / 2)"
  by (simp add: round_binary64_eval)

lemma lit_5_0: "round_binary64 (5) = Finite (5)"
  by (simp add: round_binary64_eval)

lemma lit_10_0: "round_binary64 (10) = Finite (10)"
  by (simp add: round_binary64_eval)

lemma lit_20_0: "round_binary64 (20) = Finite (20)"
  by (simp add: round_binary64_eval)

lemma lit_30_0: "round_binary64 (30) = Finite (30)"
  by (simp add: round_binary64_eval)

lemma lit_60_0: "round_binary64 (60) = Finite (60)"
  by (simp add: round_binary64_eval)

lemma lit_120_0: "round_binary64 (120) = Finite (120)"
  by (simp add: round_binary64_eval)

lemma lit_0_0105: "round_binary64 (21 / 2000) = Finite (6052837899185947 / 576460752303423488)"
  by (simp add: round_binary64_eval)

lemma lit_0_2: "round_binary64 (1 / 5) = Finite (3602879701896397 / 18014398509481984)"
  by (simp add: round_binary64_eval)

lemma lit_0_3: "round_binary64 (3 / 10) = Finite (5404319552844595 / 18014398509481984)"
  by (simp add: round_binary64_eval)

lemma sum_c1: "round_binary64 (3458764513820541 / 1152921504606846976 + 1080863910568919 / 144115188075855872) = Finite (3026418949592973 / 288230376151711744)"
  by (simp add: round_binary64_eval)

lemma half_015: "round_binary64 (1 / 2 * (1080863910568919 / 72057594037927936)) = Finite (1080863910568919 / 144115188075855872)"
  by (simp add: round_binary64_eval)

lemma two_001: "round_binary64 (2 * (5764607523034235 / 576460752303423488)) = Finite (5764607523034235 / 288230376151711744)"
  by (simp add: round_binary64_eval)

lemma sum_c2: "round_binary64 (5764607523034235 / 288230376151711744 + 1080863910568919 / 36028797018963968) = Finite (3602879701896397 / 72057594037927936)"
  by (simp add: round_binary64_eval)

section \<open>Properties of the helper functions\<close>

lemma float_lit_finite:
  assumes "0 \<le> d" "d < pow2 1023"
  shows "\<exists>y. 0 \<le> y \<and> float_lit d = Finite y"
  unfolding float_lit_def using assms by (rule round_binary64_finite)

lemma pow2_1023: "pow2 1023 = 2 ^ 1023"
  by (simp add: pow2_def)

lemma int_truediv_nonneg:
  assumes "0 \<le> p" "p < 2 ^ 1023"
  shows "\<exists>a. 0 \<le> a \<and> round_binary64 (of_int p / 1000) = Finite a
           \<and> int_truediv p 1000 = Inr (Finite a)"
proof -
  have "(of_int p :: rat) < of_int (2 ^ 1023)" using assms(2) by (simp only: of_int_less_iff)
  then have "(of_int p :: rat) < pow2 1023" by (simp add: pow2_1023)
  moreover have "(of_int p :: rat) / 1000 \<le> of_int p" using assms(1) by simp
  ultimately have b: "(of_int p :: rat) / 1000 < pow2 1023" by linarith
  have "0 \<le> (of_int p :: rat) / 1000" using assms(1) by simp
  from round_binary64_finite[OF this b] obtain a
    where "0 \<le> a" "round_binary64 (of_int p / 1000) = Finite a" by blast
  then show ?thesis by (auto simp: int_truediv_def)
qed

lemma int_truediv_overflow:
  assumes "1000 * 2 ^ 1024 \<le> p"
  shows "int_truediv p 1000 = Inl OverflowError"
proof -
  have "(of_int (1000 * 2 ^ 1024) :: rat) \<le> of_int p" using assms by (simp only: of_int_le_iff)
  then have "pow2 1024 \<le> (of_int p :: rat) / 1000" by (simp add: pow2_def)
  then have "round_binary64 (of_int p / 1000) = PosInf" by (rule round_binary64_overflow)
  then show ?thesis by (simp add: int_truediv_def)
qed

lemma counter_inc_labels:
  "counter_inc (counter_labels c lv) lv cost =
     (if flt cost (Finite 0) then Inl ValueError
      else Inr (c(lv \<mapsto> fadd (child_value c lv) cost)))"
  by (auto simp: counter_inc_def counter_labels_def child_value_def split: option.splits)

lemma record_llm_cost_unfold:
  "record_llm_cost reg provider model p c =
     (case llm_cost model p c of
        Inl e \<Rightarrow> Inl e
      | Inr cost \<Rightarrow>
          if flt cost (Finite 0) then Inl ValueError
          else Inr (reg\<lparr>LLM_COST_DOLLARS_TOTAL :=
                 (LLM_COST_DOLLARS_TOTAL reg)([provider, model] \<mapsto>
                    fadd (child_value (LLM_COST_DOLLARS_TOTAL reg) [provider, model]) cost)\<rparr>))"
  by (simp add: record_llm_cost_def record_llm_cost_call_def counter_inc_labels Let_def
        split: sum.splits)

lemma counter_labels_value [simp]:
  "child_value (counter_labels c lv) lv' = child_value c lv'"
  by (simp add: counter_labels_def child_value_def split: option.splits)

lemma counter_labels_other: "lv' \<noteq> lv \<Longrightarrow> counter_labels c lv lv' = c lv'"
  by (simp add: counter_labels_def split: option.splits)

lemma counter_labels_upd [simp]: "(counter_labels c lv)(lv \<mapsto> v) = c(lv \<mapsto> v)"
  by (simp add: counter_labels_def split: option.splits)

lemma record_llm_cost_call_unfold:
  "record_llm_cost_call reg provider model p c =
     (case llm_cost model p c of
        Inl e \<Rightarrow> (Some e, reg)
      | Inr cost \<Rightarrow>
          if flt cost (Finite 0)
          then (Some ValueError,
                reg\<lparr>LLM_COST_DOLLARS_TOTAL :=
                      counter_labels (LLM_COST_DOLLARS_TOTAL reg) [provider, model]\<rparr>)
          else (None,
                reg\<lparr>LLM_COST_DOLLARS_TOTAL :=
                      (LLM_COST_DOLLARS_TOTAL reg)([provider, model] \<mapsto>
                         fadd (child_value (LLM_COST_DOLLARS_TOTAL reg) [provider, model]) cost)\<rparr>))"
  by (simp add: record_llm_cost_call_def Let_def counter_inc_def split: sum.splits)

lemma float_lit_nonneg_finite:
  assumes "0 \<le> d" "d < 1"
  shows "nonneg_finite (float_lit d)"
proof -
  have "d < pow2 1023" using assms(2) by (simp add: pow2_1023)
  from float_lit_finite[OF assms(1) this] show ?thesis by (auto simp: nonneg_finite_def)
qed

lemma table_pricing_finite:
  assumes "map_of LLM_PRICING model = Some pr"
  shows "nonneg_finite (pricing_input pr) \<and> nonneg_finite (pricing_output pr)"
  using assms
  by (auto simp: LLM_PRICING_def float_lit_nonneg_finite split: if_splits)

lemma nonneg_finiteE:
  assumes "nonneg_finite f"
  obtains y where "0 \<le> y" "f = Finite y"
  using assms by (cases f) (auto simp: nonneg_finite_def)

lemma cost_nonneg:
  assumes "0 \<le> a" "0 \<le> b" "nonneg_finite i" "nonneg_finite t"
  shows "\<not> flt (fadd (fmul (Finite a) i) (fmul (Finite b) t)) (Finite 0)"
proof -
  from assms(3) obtain x where x: "0 \<le> x" "i = Finite x" by (rule nonneg_finiteE)
  from assms(4) obtain y where y: "0 \<le> y" "t = Finite y" by (rule nonneg_finiteE)
  have "fle (Finite 0) (fmul (Finite a) i)" "fle (Finite 0) (fmul (Finite b) t)"
    using assms(1,2) x y by (simp_all add: round_binary64_nonneg)
  then have "fle (Finite 0) (fadd (fmul (Finite a) i) (fmul (Finite b) t))"
    by (rule fadd_nonneg)
  then show ?thesis by (rule flt_fle)
qed

lemma fadd_binary64: "is_binary64 (fadd a b)"
  by (cases a; cases b) (simp_all add: round_binary64_valid)

lemma fle_trans: "fle a b \<Longrightarrow> fle b c \<Longrightarrow> fle a c"
  by (cases a; cases b; cases c) auto

lemma fadd_NaN_left [simp]: "fadd NaN b = NaN"
  by (cases b) simp_all

lemma fadd_increases:
  assumes "is_binary64 a" "\<not> flt b (Finite 0)" "a \<noteq> NaN" "b \<noteq> NaN"
  shows "fle a (fadd a b) \<or> fadd a b = NaN"
proof (cases a)
  case (Finite x)
  show ?thesis
  proof (cases b)
    case (Finite y)
    with assms(2) have "x \<le> x + y" by simp
    from round_binary64_mono[OF this] assms(1) \<open>a = Finite x\<close>
    show ?thesis by (simp add: Finite)
  qed (use Finite assms in auto)
qed (use assms in \<open>cases b; simp\<close>)+

lemma round_binary64_overflow_neg:
  assumes "x \<le> - pow2 1024"
  shows "round_binary64 x = NegInf"
proof -
  have x: "x < 0" using pow2_pos[of 1024] assms by linarith
  have p: "0 < - x" using x by simp
  have "pow2 1024 \<le> - x" using assms by simp
  then have "pow2 1024 < pow2 (ilog2 (- x) + 1)" using ilog2_bounds(2)[OF p] by linarith
  then have e: "1024 \<le> ilog2 (- x)" by (simp add: pow2_less_iff)
  then have "pow2 1024 \<le> pow2 (ilog2 (- x))" by (simp add: pow2_le_iff)
  also have "\<dots> \<le> round_pos (- x)" using round_pos_lower[OF p] e by simp
  finally show ?thesis by (simp add: round_binary64_neg x)
qed

lemma int_truediv_1000_cases:
  "int_truediv p 1000 = Inl OverflowError
   \<or> (\<exists>a. round_binary64 (of_int p / 1000) = Finite a \<and> int_truediv p 1000 = Inr (Finite a))"
  by (cases "round_binary64 (of_int p / 1000)") (simp_all add: int_truediv_def)

lemma int_truediv_overflow_neg:
  assumes "p \<le> - (1000 * 2 ^ 1024)"
  shows "int_truediv p 1000 = Inl OverflowError"
proof -
  have "(of_int p :: rat) \<le> of_int (- (1000 * 2 ^ 1024))" using assms by (simp only: of_int_le_iff)
  then have "(of_int p :: rat) / 1000 \<le> - pow2 1024" by (simp add: pow2_def)
  then have "round_binary64 (of_int p / 1000) = NegInf" by (rule round_binary64_overflow_neg)
  then show ?thesis by (simp add: int_truediv_def)
qed

lemma llm_cost_overflow:
  assumes "1000 * 2 ^ 1024 \<le> \<bar>p\<bar> \<or> 1000 * 2 ^ 1024 \<le> \<bar>c\<bar>"
  shows "llm_cost model p c = Inl OverflowError"
proof -
  have ov: "int_truediv n 1000 = Inl OverflowError" if "1000 * 2 ^ 1024 \<le> \<bar>n\<bar>" for n
  proof (cases "0 \<le> n")
    case True
    with that show ?thesis by (simp add: int_truediv_overflow)
  next
    case False
    with that have "n \<le> - (1000 * 2 ^ 1024)" by simp
    then show ?thesis by (rule int_truediv_overflow_neg)
  qed
  from assms show ?thesis
  proof
    assume "1000 * 2 ^ 1024 \<le> \<bar>p\<bar>"
    then show ?thesis by (simp add: llm_cost_def ov)
  next
    assume "1000 * 2 ^ 1024 \<le> \<bar>c\<bar>"
    then show ?thesis
      using int_truediv_1000_cases[of p] by (auto simp: llm_cost_def ov)
  qed
qed

lemma llm_cost_nonneg:
  assumes "0 \<le> p" "p < 2 ^ 1023" "0 \<le> c" "c < 2 ^ 1023"
  shows "\<exists>pr. llm_cost model p c
           = Inr (fadd (fmul (round_binary64 (of_int p / 1000)) (pricing_input pr))
                       (fmul (round_binary64 (of_int c / 1000)) (pricing_output pr)))
         \<and> pr = (case map_of LLM_PRICING model of
                   Some e \<Rightarrow> e
                 | None \<Rightarrow> \<lparr>pricing_input = float_lit (1 / 100), pricing_output = float_lit (3 / 100)\<rparr>)
         \<and> \<not> flt (fadd (fmul (round_binary64 (of_int p / 1000)) (pricing_input pr))
                        (fmul (round_binary64 (of_int c / 1000)) (pricing_output pr))) (Finite 0)"
proof -
  define pr where "pr = (case map_of LLM_PRICING model of
                   Some e \<Rightarrow> e
                 | None \<Rightarrow> \<lparr>pricing_input = float_lit (1 / 100), pricing_output = float_lit (3 / 100)\<rparr>)"
  have fin: "nonneg_finite (pricing_input pr) \<and> nonneg_finite (pricing_output pr)"
  proof (cases "map_of LLM_PRICING model")
    case None
    then show ?thesis by (simp add: pr_def float_lit_nonneg_finite)
  next
    case (Some e)
    from table_pricing_finite[OF Some] Some show ?thesis by (simp add: pr_def)
  qed
  from int_truediv_nonneg[OF assms(1,2)] obtain a
    where a: "0 \<le> a" "round_binary64 (of_int p / 1000) = Finite a" "int_truediv p 1000 = Inr (Finite a)"
    by blast
  from int_truediv_nonneg[OF assms(3,4)] obtain b
    where b: "0 \<le> b" "round_binary64 (of_int c / 1000) = Finite b" "int_truediv c 1000 = Inr (Finite b)"
    by blast
  have "llm_cost model p c = Inr (fadd (fmul (Finite a) (pricing_input pr)) (fmul (Finite b) (pricing_output pr)))"
    by (simp add: llm_cost_def a(3) b(3) pr_def Let_def)
  moreover have "\<not> flt (fadd (fmul (Finite a) (pricing_input pr)) (fmul (Finite b) (pricing_output pr))) (Finite 0)"
    using cost_nonneg[OF a(1) b(1)] fin by simp
  ultimately show ?thesis using a(2) b(2) pr_def by auto
qed

lemma llm_cost_sonnet_example:
  "llm_cost ''claude-sonnet-4-20250514'' 1000 500
     = Inr (Finite (3026418949592973 / 288230376151711744))"
  by (simp add: llm_cost_def LLM_PRICING_def int_truediv_def float_lit_def round_binary64_eval)

lemma llm_cost_unknown_example:
  "llm_cost ''unknown-model'' 2000 1000 = Inr (Finite (3602879701896397 / 72057594037927936))"
  by (simp add: llm_cost_def LLM_PRICING_def int_truediv_def float_lit_def round_binary64_eval)

lemma llm_cost_negative_example:
  "llm_cost ''gpt-4o'' (- 1) 0 = Inr (Finite (- (5902958103587057 / 1180591620717411303424)))"
  by (simp add: llm_cost_def LLM_PRICING_def int_truediv_def float_lit_def round_binary64_eval)

section \<open>Claims\<close>

text \<open>
  C5. \<^verbatim>\<open>init_app_info\<close> is last-write-wins and has no error result: after two calls the
  \<^verbatim>\<open>careplan_app\<close> record is exactly the mapping of the second call's arguments, whatever
  the first call set; in particular \<^verbatim>\<open>("1.2.3", "prod")\<close> followed by
  \<^verbatim>\<open>("1.2.4", "staging")\<close> leaves \<^verbatim>\<open>{version: "1.2.4", environment: "staging"}\<close>.
\<close>

theorem init_app_info_last_write_wins:
  "APP_INFO (init_app_info (init_app_info reg v1 e1) v2 e2)
     = [''version'' \<mapsto> v2, ''environment'' \<mapsto> e2]
   \<and> init_app_info (init_app_info reg v1 e1) v2 e2 = init_app_info reg v2 e2
   \<and> APP_INFO (init_app_info (init_app_info reg ''1.2.3'' ''prod'') ''1.2.4'' ''staging'')
     = [''version'' \<mapsto> ''1.2.4'', ''environment'' \<mapsto> ''staging'']"
  by (simp add: init_app_info_def info_set_def)

theorem init_app_info_last_write_wins_witness:
  "APP_INFO (init_app_info (init_app_info module_init ''0.9'' ''dev'') ''1.0'' ''prod'') ''version''
     = Some ''1.0''
   \<and> APP_INFO (init_app_info (init_app_info module_init ''0.9'' ''dev'') ''1.0'' ''prod'')
       ''environment'' = Some ''prod''
   \<and> APP_INFO (init_app_info (init_app_info module_init ''0.9'' ''dev'') ''1.0'' ''prod'')
       ''build'' = None"
proof -
  from init_app_info_last_write_wins [of module_init "''0.9''" "''dev''" "''1.0''" "''prod''"]
  have "APP_INFO (init_app_info (init_app_info module_init ''0.9'' ''dev'') ''1.0'' ''prod'')
          = [''version'' \<mapsto> ''1.0'', ''environment'' \<mapsto> ''prod'']"
    by (rule conjunct1)
  then show ?thesis by simp
qed

text \<open>
  C8. \<^verbatim>\<open>record_llm_cost\<close> returns nothing, and every call, whether it returns or raises,
  touches only the counter \<^verbatim>\<open>careplan_llm_cost_dollars_total\<close> at the label vector
  (provider, model): the registry after the call is the registry before it with that one
  field replaced, so every other instrument is as it was, and every other label vector
  of the counter maps to what it did. A call that raises changes no accumulator value at
  all: at most \<^verbatim>\<open>labels\<close> has created the accumulator of (provider, model) at 0, the value
  it read before.
\<close>

theorem record_llm_cost_frame:
  "snd (record_llm_cost_call reg provider model prompt_tokens completion_tokens)
     = reg\<lparr>LLM_COST_DOLLARS_TOTAL :=
            LLM_COST_DOLLARS_TOTAL
              (snd (record_llm_cost_call reg provider model prompt_tokens completion_tokens))\<rparr>
   \<and> (\<forall>lv. lv \<noteq> [provider, model] \<longrightarrow>
         LLM_COST_DOLLARS_TOTAL
           (snd (record_llm_cost_call reg provider model prompt_tokens completion_tokens)) lv
         = LLM_COST_DOLLARS_TOTAL reg lv)
   \<and> (\<forall>e. fst (record_llm_cost_call reg provider model prompt_tokens completion_tokens) = Some e
         \<longrightarrow> (\<forall>lv. child_value (LLM_COST_DOLLARS_TOTAL
                  (snd (record_llm_cost_call reg provider model prompt_tokens completion_tokens))) lv
                = child_value (LLM_COST_DOLLARS_TOTAL reg) lv))
   \<and> record_llm_cost reg provider model prompt_tokens completion_tokens
       = (case fst (record_llm_cost_call reg provider model prompt_tokens completion_tokens) of
            None \<Rightarrow>
              Inr (snd (record_llm_cost_call reg provider model prompt_tokens completion_tokens))
          | Some e \<Rightarrow> Inl e)"
proof (cases "llm_cost model prompt_tokens completion_tokens")
  case (Inl e)
  then show ?thesis
    by (simp add: record_llm_cost_call_unfold record_llm_cost_unfold)
next
  case (Inr cost)
  show ?thesis
  proof (cases "flt cost (Finite 0)")
    case True
    with Inr show ?thesis
      by (simp add: record_llm_cost_call_unfold record_llm_cost_unfold counter_labels_other)
  next
    case False
    with Inr show ?thesis
      by (simp add: record_llm_cost_call_unfold record_llm_cost_unfold)
  qed
qed

theorem record_llm_cost_frame_witness:
  "record_llm_cost_call module_init ''x'' ''unknown-model'' 2000 1000
     = (None, module_init\<lparr>LLM_COST_DOLLARS_TOTAL :=
                [[''x'', ''unknown-model''] \<mapsto> Finite (3602879701896397 / 72057594037927936)]\<rparr>)
   \<and> record_llm_cost_call module_init ''x'' ''gpt-4o'' (- 1) 0
     = (Some ValueError,
        module_init\<lparr>LLM_COST_DOLLARS_TOTAL := [[''x'', ''gpt-4o''] \<mapsto> Finite 0]\<rparr>)
   \<and> LLM_COST_DOLLARS_TOTAL
         (snd (record_llm_cost_call module_init ''x'' ''unknown-model'' 2000 1000))
         [''x'', ''gpt-4o'']
       = LLM_COST_DOLLARS_TOTAL module_init [''x'', ''gpt-4o'']
   \<and> APP_INFO (snd (record_llm_cost_call module_init ''x'' ''gpt-4o'' (- 1) 0))
       = APP_INFO module_init
   \<and> child_value (LLM_COST_DOLLARS_TOTAL
         (snd (record_llm_cost_call module_init ''x'' ''gpt-4o'' (- 1) 0))) [''x'', ''gpt-4o'']
       = child_value (LLM_COST_DOLLARS_TOTAL module_init) [''x'', ''gpt-4o'']"
proof -
  have r: "record_llm_cost_call module_init ''x'' ''unknown-model'' 2000 1000
     = (None, module_init\<lparr>LLM_COST_DOLLARS_TOTAL :=
                [[''x'', ''unknown-model''] \<mapsto> Finite (3602879701896397 / 72057594037927936)]\<rparr>)"
    by (simp add: record_llm_cost_call_unfold llm_cost_unknown_example module_init_def
          child_value_def round_binary64_eval)
  have v: "record_llm_cost_call module_init ''x'' ''gpt-4o'' (- 1) 0
     = (Some ValueError,
        module_init\<lparr>LLM_COST_DOLLARS_TOTAL := [[''x'', ''gpt-4o''] \<mapsto> Finite 0]\<rparr>)"
    by (simp add: record_llm_cost_call_unfold llm_cost_negative_example module_init_def
          counter_labels_def)
  note f1 = record_llm_cost_frame [of module_init "''x''" "''unknown-model''" 2000 1000]
  note f2 = record_llm_cost_frame [of module_init "''x''" "''gpt-4o''" "- 1" 0]
  from f1 have a: "LLM_COST_DOLLARS_TOTAL
         (snd (record_llm_cost_call module_init ''x'' ''unknown-model'' 2000 1000))
         [''x'', ''gpt-4o'']
       = LLM_COST_DOLLARS_TOTAL module_init [''x'', ''gpt-4o'']"
    by simp
  from f2 have "snd (record_llm_cost_call module_init ''x'' ''gpt-4o'' (- 1) 0)
     = module_init\<lparr>LLM_COST_DOLLARS_TOTAL :=
            LLM_COST_DOLLARS_TOTAL (snd (record_llm_cost_call module_init ''x'' ''gpt-4o'' (- 1) 0))\<rparr>"
    by (rule conjunct1)
  then have "APP_INFO (snd (record_llm_cost_call module_init ''x'' ''gpt-4o'' (- 1) 0))
       = APP_INFO (module_init\<lparr>LLM_COST_DOLLARS_TOTAL :=
            LLM_COST_DOLLARS_TOTAL (snd (record_llm_cost_call module_init ''x'' ''gpt-4o'' (- 1) 0))\<rparr>)"
    by (rule arg_cong)
  then have b: "APP_INFO (snd (record_llm_cost_call module_init ''x'' ''gpt-4o'' (- 1) 0))
       = APP_INFO module_init"
    by simp
  from f2 v have c: "child_value (LLM_COST_DOLLARS_TOTAL
         (snd (record_llm_cost_call module_init ''x'' ''gpt-4o'' (- 1) 0))) [''x'', ''gpt-4o'']
       = child_value (LLM_COST_DOLLARS_TOTAL module_init) [''x'', ''gpt-4o'']"
    by simp
  from r v a b c show ?thesis by blast
qed

text \<open>
  C9. \<^verbatim>\<open>gpt-4-turbo\<close> is priced like a model that is not in the table: for all token
  counts the cost is the same float (or the same exception), and when both calls return,
  each accumulator becomes its old value plus that one cost.
\<close>

theorem gpt_4_turbo_priced_as_default:
  assumes "map_of LLM_PRICING m = None"
  shows "llm_cost ''gpt-4-turbo'' prompt_tokens completion_tokens
           = llm_cost m prompt_tokens completion_tokens
         \<and> (\<forall>e. record_llm_cost reg provider ''gpt-4-turbo'' prompt_tokens completion_tokens = Inl e
               \<longleftrightarrow> record_llm_cost reg provider m prompt_tokens completion_tokens = Inl e)
         \<and> (\<forall>r1 r2.
               record_llm_cost reg provider ''gpt-4-turbo'' prompt_tokens completion_tokens = Inr r1
               \<longrightarrow> record_llm_cost reg provider m prompt_tokens completion_tokens = Inr r2
               \<longrightarrow> (\<exists>cost.
                     child_value (LLM_COST_DOLLARS_TOTAL r1) [provider, ''gpt-4-turbo'']
                       = fadd (child_value (LLM_COST_DOLLARS_TOTAL reg) [provider, ''gpt-4-turbo'']) cost
                   \<and> child_value (LLM_COST_DOLLARS_TOTAL r2) [provider, m]
                       = fadd (child_value (LLM_COST_DOLLARS_TOTAL reg) [provider, m]) cost))"
proof -
  have eq: "llm_cost ''gpt-4-turbo'' prompt_tokens completion_tokens
              = llm_cost m prompt_tokens completion_tokens"
    using assms by (simp add: llm_cost_def LLM_PRICING_def)
  show ?thesis
    using eq
    by (auto simp: record_llm_cost_unfold child_value_def split: sum.splits if_splits)
qed

theorem gpt_4_turbo_priced_as_default_witness:
  "map_of LLM_PRICING ''unknown-model'' = None
   \<and> llm_cost ''gpt-4-turbo'' 2000 1000 = llm_cost ''unknown-model'' 2000 1000
   \<and> llm_cost ''gpt-4-turbo'' 2000 1000 = Inr (Finite (3602879701896397 / 72057594037927936))"
proof -
  have h: "map_of LLM_PRICING ''unknown-model'' = None" by (simp add: LLM_PRICING_def)
  from gpt_4_turbo_priced_as_default [OF h, of 2000 1000]
  have "llm_cost ''gpt-4-turbo'' 2000 1000 = llm_cost ''unknown-model'' 2000 1000"
    by (rule conjunct1)
  with h show ?thesis by (simp add: llm_cost_unknown_example)
qed

text \<open>
  C10. With both token counts 0 the cost is the float 0 for every model, the call returns,
  and the accumulator for (provider, model) keeps its value; an accumulator holds a float,
  which is the hypothesis on the value before the call.
\<close>

theorem zero_tokens_add_zero:
  assumes "is_binary64 (child_value (LLM_COST_DOLLARS_TOTAL reg) [provider, model])"
  shows "llm_cost model 0 0 = Inr (Finite 0)
         \<and> (\<exists>reg'. record_llm_cost reg provider model 0 0 = Inr reg'
               \<and> child_value (LLM_COST_DOLLARS_TOTAL reg') [provider, model]
                   = child_value (LLM_COST_DOLLARS_TOTAL reg) [provider, model])"
proof -
  from llm_cost_nonneg [of 0 0 model] obtain pr where
    c: "llm_cost model 0 0
          = Inr (fadd (fmul (round_binary64 (of_int 0 / 1000)) (pricing_input pr))
                      (fmul (round_binary64 (of_int 0 / 1000)) (pricing_output pr)))"
    and pr: "pr = (case map_of LLM_PRICING model of
                   Some e \<Rightarrow> e
                 | None \<Rightarrow> \<lparr>pricing_input = float_lit (1 / 100), pricing_output = float_lit (3 / 100)\<rparr>)"
    by auto
  have fin: "nonneg_finite (pricing_input pr) \<and> nonneg_finite (pricing_output pr)"
  proof (cases "map_of LLM_PRICING model")
    case None
    then show ?thesis by (simp add: pr float_lit_nonneg_finite)
  next
    case (Some e)
    from table_pricing_finite [OF Some] Some show ?thesis by (simp add: pr)
  qed
  from fin obtain i where i: "pricing_input pr = Finite i" by (auto elim: nonneg_finiteE)
  from fin obtain t where t: "pricing_output pr = Finite t" by (auto elim: nonneg_finiteE)
  have z: "llm_cost model 0 0 = Inr (Finite 0)" by (simp add: c i t)
  show ?thesis
    using assms by (simp add: z record_llm_cost_unfold child_value_def fadd_zero_right)
qed

theorem zero_tokens_add_zero_witness:
  "is_binary64 (child_value (LLM_COST_DOLLARS_TOTAL module_init) [''claude'', ''gpt-4o''])
   \<and> llm_cost ''gpt-4o'' 0 0 = Inr (Finite 0)
   \<and> record_llm_cost module_init ''claude'' ''gpt-4o'' 0 0
       = Inr (module_init\<lparr>LLM_COST_DOLLARS_TOTAL := [[''claude'', ''gpt-4o''] \<mapsto> Finite 0]\<rparr>)"
proof -
  have h: "is_binary64 (child_value (LLM_COST_DOLLARS_TOTAL module_init) [''claude'', ''gpt-4o''])"
    by (simp add: module_init_def child_value_def)
  from zero_tokens_add_zero [OF h] have z: "llm_cost ''gpt-4o'' 0 0 = Inr (Finite 0)"
    by (rule conjunct1)
  show ?thesis using h z
    by (simp add: record_llm_cost_unfold module_init_def child_value_def)
qed

text \<open>
  C2. For a model name that is not a key of the pricing table the default rates 0.01 and
  0.03 are used: the call is the two true divisions by 1000, the cost
  \<^verbatim>\<open>prompt_tokens / 1000 * 0.01 + completion_tokens / 1000 * 0.03\<close> and the increment of the
  accumulator for (provider, model). For \<^verbatim>\<open>("x", "unknown-model", 2000, 1000)\<close> the
  cost is the float 0.05, which is added to the accumulator; a new accumulator then holds
  0.05.
\<close>

theorem unknown_model_default_rates:
  assumes "map_of LLM_PRICING model = None"
  shows "record_llm_cost reg provider model prompt_tokens completion_tokens =
          (case int_truediv prompt_tokens 1000 of
             Inl e \<Rightarrow> Inl e
           | Inr a \<Rightarrow>
               (case int_truediv completion_tokens 1000 of
                  Inl e \<Rightarrow> Inl e
                | Inr b \<Rightarrow>
                    (let cost = fadd (fmul a (float_lit (1 / 100))) (fmul b (float_lit (3 / 100)))
                     in if flt cost (Finite 0) then Inl ValueError
                        else Inr (reg\<lparr>LLM_COST_DOLLARS_TOTAL :=
                               (LLM_COST_DOLLARS_TOTAL reg)([provider, model] \<mapsto>
                                  fadd (child_value (LLM_COST_DOLLARS_TOTAL reg) [provider, model])
                                    cost)\<rparr>))))
         \<and> map_of LLM_PRICING ''unknown-model'' = None
         \<and> llm_cost ''unknown-model'' 2000 1000 = Inr (float_lit (5 / 100))
         \<and> record_llm_cost reg ''x'' ''unknown-model'' 2000 1000
             = Inr (reg\<lparr>LLM_COST_DOLLARS_TOTAL :=
                      (LLM_COST_DOLLARS_TOTAL reg)([''x'', ''unknown-model''] \<mapsto>
                         fadd (child_value (LLM_COST_DOLLARS_TOTAL reg) [''x'', ''unknown-model''])
                           (float_lit (5 / 100)))\<rparr>)
         \<and> record_llm_cost module_init ''x'' ''unknown-model'' 2000 1000
             = Inr (module_init\<lparr>LLM_COST_DOLLARS_TOTAL :=
                      [[''x'', ''unknown-model''] \<mapsto> float_lit (5 / 100)]\<rparr>)"
proof -
  have lit: "float_lit (5 / 100) = Finite (3602879701896397 / 72057594037927936)"
    by (simp add: float_lit_def round_binary64_eval)
  have g: "record_llm_cost reg provider model prompt_tokens completion_tokens =
          (case int_truediv prompt_tokens 1000 of
             Inl e \<Rightarrow> Inl e
           | Inr a \<Rightarrow>
               (case int_truediv completion_tokens 1000 of
                  Inl e \<Rightarrow> Inl e
                | Inr b \<Rightarrow>
                    (let cost = fadd (fmul a (float_lit (1 / 100))) (fmul b (float_lit (3 / 100)))
                     in if flt cost (Finite 0) then Inl ValueError
                        else Inr (reg\<lparr>LLM_COST_DOLLARS_TOTAL :=
                               (LLM_COST_DOLLARS_TOTAL reg)([provider, model] \<mapsto>
                                  fadd (child_value (LLM_COST_DOLLARS_TOTAL reg) [provider, model])
                                    cost)\<rparr>))))"
    using assms by (simp add: record_llm_cost_unfold llm_cost_def Let_def split: sum.splits)
  have k: "map_of LLM_PRICING ''unknown-model'' = None" by (simp add: LLM_PRICING_def)
  have c: "llm_cost ''unknown-model'' 2000 1000 = Inr (float_lit (5 / 100))"
    by (simp only: lit llm_cost_unknown_example)
  have nn: "\<not> flt (float_lit (5 / 100)) (Finite 0)"
    by (simp only: lit) simp
  have r: "record_llm_cost r0 ''x'' ''unknown-model'' 2000 1000
             = Inr (r0\<lparr>LLM_COST_DOLLARS_TOTAL :=
                      (LLM_COST_DOLLARS_TOTAL r0)([''x'', ''unknown-model''] \<mapsto>
                         fadd (child_value (LLM_COST_DOLLARS_TOTAL r0) [''x'', ''unknown-model''])
                           (float_lit (5 / 100)))\<rparr>)" for r0
    by (simp only: record_llm_cost_unfold c sum.case nn if_False)
  have z: "fadd (Finite 0) (float_lit d) = float_lit d" for d
    by (rule fadd_zero_left) (simp add: float_lit_def round_binary64_valid)
  have m: "record_llm_cost module_init ''x'' ''unknown-model'' 2000 1000
             = Inr (module_init\<lparr>LLM_COST_DOLLARS_TOTAL :=
                      [[''x'', ''unknown-model''] \<mapsto> float_lit (5 / 100)]\<rparr>)"
    unfolding r by (simp add: module_init_def child_value_def z)
  from g k c r m show ?thesis by blast
qed

theorem unknown_model_default_rates_witness:
  "map_of LLM_PRICING ''llama-3'' = None
   \<and> record_llm_cost module_init ''x'' ''llama-3'' 2000 1000
       = Inr (module_init\<lparr>LLM_COST_DOLLARS_TOTAL :=
                [[''x'', ''llama-3''] \<mapsto> Finite (3602879701896397 / 72057594037927936)]\<rparr>)"
proof -
  have h: "map_of LLM_PRICING ''llama-3'' = None" by (simp add: LLM_PRICING_def)
  from unknown_model_default_rates [OF h, of module_init "''x''" 2000 1000]
  have "record_llm_cost module_init ''x'' ''llama-3'' 2000 1000 =
          (case int_truediv 2000 1000 of
             Inl e \<Rightarrow> Inl e
           | Inr a \<Rightarrow>
               (case int_truediv 1000 1000 of
                  Inl e \<Rightarrow> Inl e
                | Inr b \<Rightarrow>
                    (let cost = fadd (fmul a (float_lit (1 / 100))) (fmul b (float_lit (3 / 100)))
                     in if flt cost (Finite 0) then Inl ValueError
                        else Inr (module_init\<lparr>LLM_COST_DOLLARS_TOTAL :=
                               (LLM_COST_DOLLARS_TOTAL module_init)([''x'', ''llama-3''] \<mapsto>
                                  fadd (child_value (LLM_COST_DOLLARS_TOTAL module_init) [''x'', ''llama-3''])
                                    cost)\<rparr>))))"
    by (rule conjunct1)
  then show ?thesis using h
    by (simp add: int_truediv_def float_lit_def module_init_def child_value_def round_binary64_eval)
qed

text \<open>
  C1, as the code has it. For a model with an entry in the pricing table and token counts
  from 0 to below \<open>2^1023\<close>, the call returns and the accumulator for (provider, model)
  becomes its old value plus \<^verbatim>\<open>prompt_tokens / 1000 * input + completion_tokens / 1000 * output\<close>,
  every operation being the float one (\<open>round_binary64 (p / 1000)\<close> is the true division of
  an int by 1000). For \<^verbatim>\<open>("claude", "claude-sonnet-4-20250514", 1000, 500)\<close> the
  cost is the float \<open>3026418949592973 / 2^58\<close>, printed 0.010499999999999999 by Python: the
  float next below the one of the literal 0.0105.
\<close>

theorem priced_model_cost:
  assumes "map_of LLM_PRICING model = Some pr"
    and "0 \<le> prompt_tokens" and "prompt_tokens < 2 ^ 1023"
    and "0 \<le> completion_tokens" and "completion_tokens < 2 ^ 1023"
  shows "record_llm_cost reg provider model prompt_tokens completion_tokens
          = Inr (reg\<lparr>LLM_COST_DOLLARS_TOTAL :=
                   (LLM_COST_DOLLARS_TOTAL reg)([provider, model] \<mapsto>
                      fadd (child_value (LLM_COST_DOLLARS_TOTAL reg) [provider, model])
                        (fadd (fmul (round_binary64 (of_int prompt_tokens / 1000)) (pricing_input pr))
                              (fmul (round_binary64 (of_int completion_tokens / 1000))
                                 (pricing_output pr))))\<rparr>)
         \<and> llm_cost ''claude-sonnet-4-20250514'' 1000 500
             = Inr (Finite (3026418949592973 / 2 ^ 58))
         \<and> record_llm_cost module_init ''claude'' ''claude-sonnet-4-20250514'' 1000 500
             = Inr (module_init\<lparr>LLM_COST_DOLLARS_TOTAL :=
                      [[''claude'', ''claude-sonnet-4-20250514''] \<mapsto>
                         Finite (3026418949592973 / 2 ^ 58)]\<rparr>)"
proof -
  from llm_cost_nonneg [OF assms(2-5), of model] assms(1)
  have c: "llm_cost model prompt_tokens completion_tokens
             = Inr (fadd (fmul (round_binary64 (of_int prompt_tokens / 1000)) (pricing_input pr))
                         (fmul (round_binary64 (of_int completion_tokens / 1000))
                            (pricing_output pr)))"
    and n: "\<not> flt (fadd (fmul (round_binary64 (of_int prompt_tokens / 1000)) (pricing_input pr))
                       (fmul (round_binary64 (of_int completion_tokens / 1000))
                          (pricing_output pr))) (Finite 0)"
    by auto
  have g: "record_llm_cost reg provider model prompt_tokens completion_tokens
          = Inr (reg\<lparr>LLM_COST_DOLLARS_TOTAL :=
                   (LLM_COST_DOLLARS_TOTAL reg)([provider, model] \<mapsto>
                      fadd (child_value (LLM_COST_DOLLARS_TOTAL reg) [provider, model])
                        (fadd (fmul (round_binary64 (of_int prompt_tokens / 1000)) (pricing_input pr))
                              (fmul (round_binary64 (of_int completion_tokens / 1000))
                                 (pricing_output pr))))\<rparr>)"
    by (simp only: record_llm_cost_unfold c sum.case n if_False)
  have e: "llm_cost ''claude-sonnet-4-20250514'' 1000 500
             = Inr (Finite (3026418949592973 / 2 ^ 58))"
    by (simp add: llm_cost_sonnet_example)
  have m: "record_llm_cost module_init ''claude'' ''claude-sonnet-4-20250514'' 1000 500
             = Inr (module_init\<lparr>LLM_COST_DOLLARS_TOTAL :=
                      [[''claude'', ''claude-sonnet-4-20250514''] \<mapsto>
                         Finite (3026418949592973 / 2 ^ 58)]\<rparr>)"
    by (simp add: record_llm_cost_unfold llm_cost_sonnet_example module_init_def child_value_def
          round_binary64_eval)
  from g e m show ?thesis by blast
qed

theorem priced_model_cost_witness:
  "map_of LLM_PRICING ''gpt-4o'' = Some \<lparr>pricing_input = float_lit (5 / 1000),
                                         pricing_output = float_lit (15 / 1000)\<rparr>
   \<and> (0::int) \<le> 3000 \<and> (3000::int) < 2 ^ 1023 \<and> (0::int) \<le> 1000 \<and> (1000::int) < 2 ^ 1023
   \<and> record_llm_cost module_init ''openai'' ''gpt-4o'' 3000 1000
       = Inr (module_init\<lparr>LLM_COST_DOLLARS_TOTAL :=
                [[''openai'', ''gpt-4o''] \<mapsto> float_lit (3 / 100)]\<rparr>)"
proof -
  have h: "map_of LLM_PRICING ''gpt-4o'' = Some \<lparr>pricing_input = float_lit (5 / 1000),
                                         pricing_output = float_lit (15 / 1000)\<rparr>"
    by (simp add: LLM_PRICING_def)
  have b: "(0::int) \<le> 3000" "(3000::int) < 2 ^ 1023" "(0::int) \<le> 1000" "(1000::int) < 2 ^ 1023"
    by simp_all
  from priced_model_cost [OF h b, of module_init "''openai''"]
  have "record_llm_cost module_init ''openai'' ''gpt-4o'' 3000 1000
          = Inr (module_init\<lparr>LLM_COST_DOLLARS_TOTAL :=
                   (LLM_COST_DOLLARS_TOTAL module_init)([''openai'', ''gpt-4o''] \<mapsto>
                      fadd (child_value (LLM_COST_DOLLARS_TOTAL module_init) [''openai'', ''gpt-4o''])
                        (fadd (fmul (round_binary64 (of_int 3000 / 1000))
                                 (pricing_input \<lparr>pricing_input = float_lit (5 / 1000),
                                         pricing_output = float_lit (15 / 1000)\<rparr>))
                              (fmul (round_binary64 (of_int 1000 / 1000))
                                 (pricing_output \<lparr>pricing_input = float_lit (5 / 1000),
                                         pricing_output = float_lit (15 / 1000)\<rparr>))))\<rparr>)"
    by (rule conjunct1)
  then have "record_llm_cost module_init ''openai'' ''gpt-4o'' 3000 1000
       = Inr (module_init\<lparr>LLM_COST_DOLLARS_TOTAL :=
                [[''openai'', ''gpt-4o''] \<mapsto> float_lit (3 / 100)]\<rparr>)"
    by (simp add: module_init_def child_value_def float_lit_def round_binary64_eval)
  with h show ?thesis by simp
qed

text \<open>
  C1 as stated fails at its own example: the amount added by
  \<^verbatim>\<open>record_llm_cost("claude", "claude-sonnet-4-20250514", 1000, 500)\<close> is neither the float
  of the literal 0.0105 nor the number 0.0105, so a new accumulator does not hold 0.0105
  after the call.
\<close>

theorem sonnet_example_counterexample:
  "llm_cost ''claude-sonnet-4-20250514'' 1000 500 = Inr (Finite (3026418949592973 / 2 ^ 58))
   \<and> float_lit (105 / 10000) = Finite (6052837899185947 / 2 ^ 59)
   \<and> llm_cost ''claude-sonnet-4-20250514'' 1000 500 \<noteq> Inr (float_lit (105 / 10000))
   \<and> llm_cost ''claude-sonnet-4-20250514'' 1000 500 \<noteq> Inr (Finite (105 / 10000))
   \<and> record_llm_cost module_init ''claude'' ''claude-sonnet-4-20250514'' 1000 500
       \<noteq> Inr (module_init\<lparr>LLM_COST_DOLLARS_TOTAL :=
                [[''claude'', ''claude-sonnet-4-20250514''] \<mapsto> float_lit (105 / 10000)]\<rparr>)"
proof -
  have l: "float_lit (105 / 10000) = Finite (6052837899185947 / 2 ^ 59)"
    by (simp add: float_lit_def round_binary64_eval)
  have r: "record_llm_cost module_init ''claude'' ''claude-sonnet-4-20250514'' 1000 500
             = Inr (module_init\<lparr>LLM_COST_DOLLARS_TOTAL :=
                      [[''claude'', ''claude-sonnet-4-20250514''] \<mapsto>
                         Finite (3026418949592973 / 2 ^ 58)]\<rparr>)"
    by (simp add: record_llm_cost_unfold llm_cost_sonnet_example module_init_def child_value_def
          round_binary64_eval)
  have d: "module_init\<lparr>LLM_COST_DOLLARS_TOTAL :=
                      [[''claude'', ''claude-sonnet-4-20250514''] \<mapsto>
                         Finite (3026418949592973 / 2 ^ 58)]\<rparr>
           \<noteq> module_init\<lparr>LLM_COST_DOLLARS_TOTAL :=
                [[''claude'', ''claude-sonnet-4-20250514''] \<mapsto> float_lit (105 / 10000)]\<rparr>"
  proof
    assume "module_init\<lparr>LLM_COST_DOLLARS_TOTAL :=
                      [[''claude'', ''claude-sonnet-4-20250514''] \<mapsto>
                         Finite (3026418949592973 / 2 ^ 58)]\<rparr>
           = module_init\<lparr>LLM_COST_DOLLARS_TOTAL :=
                [[''claude'', ''claude-sonnet-4-20250514''] \<mapsto> float_lit (105 / 10000)]\<rparr>"
    then have "LLM_COST_DOLLARS_TOTAL (module_init\<lparr>LLM_COST_DOLLARS_TOTAL :=
                      [[''claude'', ''claude-sonnet-4-20250514''] \<mapsto>
                         Finite (3026418949592973 / 2 ^ 58)]\<rparr>) [''claude'', ''claude-sonnet-4-20250514'']
           = LLM_COST_DOLLARS_TOTAL (module_init\<lparr>LLM_COST_DOLLARS_TOTAL :=
                [[''claude'', ''claude-sonnet-4-20250514''] \<mapsto> float_lit (105 / 10000)]\<rparr>)
                [''claude'', ''claude-sonnet-4-20250514'']"
      by (rule arg_cong)
    then show False by (simp add: float_lit_def round_binary64_eval)
  qed
  have c1: "llm_cost ''claude-sonnet-4-20250514'' 1000 500 = Inr (Finite (3026418949592973 / 2 ^ 58))"
    by (simp add: llm_cost_sonnet_example)
  have c3: "llm_cost ''claude-sonnet-4-20250514'' 1000 500 \<noteq> Inr (float_lit (105 / 10000))"
    by (simp add: llm_cost_sonnet_example float_lit_def round_binary64_eval)
  have c4: "llm_cost ''claude-sonnet-4-20250514'' 1000 500 \<noteq> Inr (Finite (105 / 10000))"
    by (simp add: llm_cost_sonnet_example)
  have c5: "record_llm_cost module_init ''claude'' ''claude-sonnet-4-20250514'' 1000 500
       \<noteq> Inr (module_init\<lparr>LLM_COST_DOLLARS_TOTAL :=
                [[''claude'', ''claude-sonnet-4-20250514''] \<mapsto> float_lit (105 / 10000)]\<rparr>)"
    by (simp only: r sum.inject) (rule d)
  from c1 l c3 c4 c5 show ?thesis by blast
qed

text \<open>
  C3 as stated fails: a negative token count makes the cost negative and the counter refuses
  the increment with \<^verbatim>\<open>ValueError\<close>; a token count too large for a float makes the true
  division raise \<^verbatim>\<open>OverflowError\<close>.
\<close>

theorem record_llm_cost_raises_counterexample:
  "record_llm_cost module_init ''x'' ''gpt-4o'' (- 1) 0 = Inl ValueError
   \<and> record_llm_cost module_init ''x'' ''gpt-4o'' (10 ^ 400) 0 = Inl OverflowError"
proof -
  have "(1000 * 2 ^ 1024 :: int) \<le> \<bar>10 ^ 400\<bar>" by simp
  then have "llm_cost ''gpt-4o'' (10 ^ 400) 0 = Inl OverflowError"
    by (intro llm_cost_overflow disjI1)
  then show ?thesis
    by (simp add: record_llm_cost_unfold llm_cost_negative_example)
qed

text \<open>
  C3, as the code has it. \<^verbatim>\<open>init_app_info\<close> has no error result and always sets the record.
  \<^verbatim>\<open>record_llm_cost\<close> returns for all token counts from 0 to below \<open>2^1023\<close>; it raises
  \<^verbatim>\<open>OverflowError\<close> when a token count is at least \<open>1000 * 2^1024\<close> in absolute value, and
  \<^verbatim>\<open>ValueError\<close> whenever the computed cost is negative.
\<close>

theorem helper_error_paths:
  "APP_INFO (init_app_info reg version environment)
     = [''version'' \<mapsto> version, ''environment'' \<mapsto> environment]
   \<and> (0 \<le> prompt_tokens \<and> prompt_tokens < 2 ^ 1023
        \<and> 0 \<le> completion_tokens \<and> completion_tokens < 2 ^ 1023
      \<longrightarrow> (\<exists>reg'. record_llm_cost reg provider model prompt_tokens completion_tokens = Inr reg'))
   \<and> (1000 * 2 ^ 1024 \<le> \<bar>prompt_tokens\<bar> \<or> 1000 * 2 ^ 1024 \<le> \<bar>completion_tokens\<bar>
      \<longrightarrow> record_llm_cost reg provider model prompt_tokens completion_tokens = Inl OverflowError)
   \<and> (\<forall>cost. llm_cost model prompt_tokens completion_tokens = Inr cost \<and> flt cost (Finite 0)
      \<longrightarrow> record_llm_cost reg provider model prompt_tokens completion_tokens = Inl ValueError)"
proof (intro conjI impI allI)
  show "APP_INFO (init_app_info reg version environment)
     = [''version'' \<mapsto> version, ''environment'' \<mapsto> environment]"
    by (simp add: init_app_info_def info_set_def)
next
  assume "0 \<le> prompt_tokens \<and> prompt_tokens < 2 ^ 1023
        \<and> 0 \<le> completion_tokens \<and> completion_tokens < 2 ^ 1023"
  then have b: "0 \<le> prompt_tokens" "prompt_tokens < 2 ^ 1023"
    "0 \<le> completion_tokens" "completion_tokens < 2 ^ 1023" by simp_all
  from llm_cost_nonneg [OF b, of model] obtain cost
    where "llm_cost model prompt_tokens completion_tokens = Inr cost" "\<not> flt cost (Finite 0)"
    by blast
  then show "\<exists>reg'. record_llm_cost reg provider model prompt_tokens completion_tokens = Inr reg'"
    by (simp add: record_llm_cost_unfold)
next
  assume "1000 * 2 ^ 1024 \<le> \<bar>prompt_tokens\<bar> \<or> 1000 * 2 ^ 1024 \<le> \<bar>completion_tokens\<bar>"
  then have "llm_cost model prompt_tokens completion_tokens = Inl OverflowError"
    by (rule llm_cost_overflow)
  then show "record_llm_cost reg provider model prompt_tokens completion_tokens = Inl OverflowError"
    by (simp add: record_llm_cost_unfold)
next
  fix cost
  assume "llm_cost model prompt_tokens completion_tokens = Inr cost \<and> flt cost (Finite 0)"
  then show "record_llm_cost reg provider model prompt_tokens completion_tokens = Inl ValueError"
    by (simp add: record_llm_cost_unfold)
qed

theorem helper_error_paths_witness:
  "(0::int) \<le> 1000 \<and> (1000::int) < 2 ^ 1023 \<and> (0::int) \<le> 500 \<and> (500::int) < 2 ^ 1023
   \<and> (\<exists>reg'. record_llm_cost module_init ''claude'' ''claude-sonnet-4-20250514'' 1000 500 = Inr reg')
   \<and> (1000 * 2 ^ 1024 :: int) \<le> \<bar>10 ^ 400\<bar>
   \<and> record_llm_cost module_init ''claude'' ''claude-sonnet-4-20250514'' (10 ^ 400) 500
       = Inl OverflowError
   \<and> llm_cost ''gpt-4o'' (- 1) 0 = Inr (Finite (- (5902958103587057 / 1180591620717411303424)))
   \<and> flt (Finite (- (5902958103587057 / 1180591620717411303424))) (Finite 0)
   \<and> record_llm_cost module_init ''x'' ''gpt-4o'' (- 1) 0 = Inl ValueError"
proof -
  have b: "(0::int) \<le> 1000 \<and> (1000::int) < 2 ^ 1023 \<and> (0::int) \<le> 500 \<and> (500::int) < 2 ^ 1023"
    by simp
  have o: "(1000 * 2 ^ 1024 :: int) \<le> \<bar>10 ^ 400\<bar> \<or> (1000 * 2 ^ 1024 :: int) \<le> \<bar>500\<bar>"
    by simp
  have n: "llm_cost ''gpt-4o'' (- 1) 0 = Inr (Finite (- (5902958103587057 / 1180591620717411303424)))
           \<and> flt (Finite (- (5902958103587057 / 1180591620717411303424))) (Finite 0)"
    by (simp add: llm_cost_negative_example)
  from helper_error_paths [of module_init "''v''" "''e''" 1000 500 "''claude''" "''claude-sonnet-4-20250514''"] b
  have 1: "\<exists>reg'. record_llm_cost module_init ''claude'' ''claude-sonnet-4-20250514'' 1000 500 = Inr reg'"
    by blast
  from helper_error_paths [of module_init "''v''" "''e''" "10 ^ 400" 500 "''claude''" "''claude-sonnet-4-20250514''"] o
  have 2: "record_llm_cost module_init ''claude'' ''claude-sonnet-4-20250514'' (10 ^ 400) 500
       = Inl OverflowError"
    by blast
  from helper_error_paths [of module_init "''v''" "''e''" "- 1" 0 "''x''" "''gpt-4o''"] n
  have 3: "record_llm_cost module_init ''x'' ''gpt-4o'' (- 1) 0 = Inl ValueError"
    by blast
  from b 1 2 3 n show ?thesis by simp
qed

lemma fadd_NaN_right [simp]: "fadd a NaN = NaN"
  by (cases a) simp_all

lemma fle_refl: "a \<noteq> NaN \<Longrightarrow> fle a a"
  by (cases a) simp_all

lemma fadd_keeps_above:
  assumes "is_binary64 x" "\<not> flt a (Finite 0)" "x = NaN \<or> fle v x"
  shows "fadd x a = NaN \<or> fle v (fadd x a)"
proof (cases "x = NaN \<or> a = NaN")
  case True
  then show ?thesis by auto
next
  case False
  with assms(3) have v: "fle v x" by simp
  from fadd_increases [OF assms(1,2)] False
  have "fle x (fadd x a) \<or> fadd x a = NaN" by simp
  then show ?thesis using fle_trans [OF v] by blast
qed

lemma not_flt_of_above: "x = NaN \<or> fle v x \<Longrightarrow> \<not> flt x v"
  by (auto dest: flt_fle)

lemma child_value_upd [simp]: "child_value (c(lv \<mapsto> v)) lv = v"
  by (simp add: child_value_def)

lemma counter_inc_all_sum:
  assumes "\<forall>a\<in>set amounts. \<not> flt a (Finite 0)"
    and "is_binary64 (child_value c lv)"
    and "child_value c lv = NaN \<or> fle v (child_value c lv)"
  shows "\<exists>c'. counter_inc_all c lv amounts = Inr c'
           \<and> child_value c' lv = foldl fadd (child_value c lv) amounts
           \<and> (child_value c' lv = NaN \<or> fle v (child_value c' lv))
           \<and> (\<forall>lv'. lv' \<noteq> lv \<longrightarrow> c' lv' = c lv')"
  using assms
proof (induction amounts arbitrary: c)
  case Nil
  then show ?case by simp
next
  case (Cons a as)
  let ?c1 = "c(lv \<mapsto> fadd (child_value c lv) a)"
  from Cons.prems(1) have a: "\<not> flt a (Finite 0)" and as: "\<forall>a\<in>set as. \<not> flt a (Finite 0)"
    by simp_all
  have step: "counter_inc c lv a = Inr ?c1" using a by (simp add: counter_inc_def)
  have valid: "is_binary64 (child_value ?c1 lv)" by (simp add: fadd_binary64)
  have above: "child_value ?c1 lv = NaN \<or> fle v (child_value ?c1 lv)"
    using fadd_keeps_above [OF Cons.prems(2) a Cons.prems(3)] by simp
  from Cons.IH [OF as valid above] obtain c' where
    c': "counter_inc_all ?c1 lv as = Inr c'"
        "child_value c' lv = foldl fadd (child_value ?c1 lv) as"
        "child_value c' lv = NaN \<or> fle v (child_value c' lv)"
        "\<forall>lv'. lv' \<noteq> lv \<longrightarrow> c' lv' = ?c1 lv'"
    by blast
  show ?case
    using c' by (simp add: step)
qed

text \<open>
  C7. A counter adds up and never goes down. On one label vector, \<open>n\<close> calls of \<^verbatim>\<open>inc\<close>
  with amounts that are not negative all return, the accumulator is the old value plus
  \<open>a1 + \<dots> + an\<close> (float additions, in the order of the calls), it is not less than before,
  and no other label vector changes. A call of \<^verbatim>\<open>record_llm_cost\<close> that returns has
  added a cost that is not negative to the accumulator of (provider, model), which is
  not less than before; no function of the module subtracts from a counter or resets it.
\<close>

theorem counter_additive_monotonic:
  assumes "\<forall>a\<in>set amounts. \<not> flt a (Finite 0)"
    and "is_binary64 (child_value c lv)"
    and "is_binary64 (child_value (LLM_COST_DOLLARS_TOTAL reg) [provider, model])"
  shows "(\<exists>c'. counter_inc_all c lv amounts = Inr c'
            \<and> child_value c' lv = foldl fadd (child_value c lv) amounts
            \<and> \<not> flt (child_value c' lv) (child_value c lv)
            \<and> (\<forall>lv'. lv' \<noteq> lv \<longrightarrow> c' lv' = c lv'))
         \<and> (\<forall>reg'. record_llm_cost reg provider model prompt_tokens completion_tokens = Inr reg'
              \<longrightarrow> (\<exists>cost. llm_cost model prompt_tokens completion_tokens = Inr cost
                     \<and> \<not> flt cost (Finite 0)
                     \<and> child_value (LLM_COST_DOLLARS_TOTAL reg') [provider, model]
                         = fadd (child_value (LLM_COST_DOLLARS_TOTAL reg) [provider, model]) cost
                     \<and> \<not> flt (child_value (LLM_COST_DOLLARS_TOTAL reg') [provider, model])
                             (child_value (LLM_COST_DOLLARS_TOTAL reg) [provider, model])))"
proof -
  have start: "child_value c lv = NaN \<or> fle (child_value c lv) (child_value c lv)"
    using fle_refl by blast
  from counter_inc_all_sum [OF assms(1,2) start] obtain c' where
    c': "counter_inc_all c lv amounts = Inr c'"
        "child_value c' lv = foldl fadd (child_value c lv) amounts"
        "child_value c' lv = NaN \<or> fle (child_value c lv) (child_value c' lv)"
        "\<forall>lv'. lv' \<noteq> lv \<longrightarrow> c' lv' = c lv'"
    by blast
  from c'(3) have "\<not> flt (child_value c' lv) (child_value c lv)" by (rule not_flt_of_above)
  with c' have first: "\<exists>c'. counter_inc_all c lv amounts = Inr c'
            \<and> child_value c' lv = foldl fadd (child_value c lv) amounts
            \<and> \<not> flt (child_value c' lv) (child_value c lv)
            \<and> (\<forall>lv'. lv' \<noteq> lv \<longrightarrow> c' lv' = c lv')"
    by blast
  have second: "\<exists>cost. llm_cost model prompt_tokens completion_tokens = Inr cost
                     \<and> \<not> flt cost (Finite 0)
                     \<and> child_value (LLM_COST_DOLLARS_TOTAL reg') [provider, model]
                         = fadd (child_value (LLM_COST_DOLLARS_TOTAL reg) [provider, model]) cost
                     \<and> \<not> flt (child_value (LLM_COST_DOLLARS_TOTAL reg') [provider, model])
                             (child_value (LLM_COST_DOLLARS_TOTAL reg) [provider, model])"
    if r: "record_llm_cost reg provider model prompt_tokens completion_tokens = Inr reg'" for reg'
  proof -
    from r obtain cost where
      k: "llm_cost model prompt_tokens completion_tokens = Inr cost" "\<not> flt cost (Finite 0)"
         "reg' = reg\<lparr>LLM_COST_DOLLARS_TOTAL :=
                 (LLM_COST_DOLLARS_TOTAL reg)([provider, model] \<mapsto>
                    fadd (child_value (LLM_COST_DOLLARS_TOTAL reg) [provider, model]) cost)\<rparr>"
      by (auto simp: record_llm_cost_unfold split: sum.splits if_splits)
    have v: "child_value (LLM_COST_DOLLARS_TOTAL reg') [provider, model]
               = fadd (child_value (LLM_COST_DOLLARS_TOTAL reg) [provider, model]) cost"
      by (simp add: k(3))
    have "\<not> flt (fadd (child_value (LLM_COST_DOLLARS_TOTAL reg) [provider, model]) cost)
               (child_value (LLM_COST_DOLLARS_TOTAL reg) [provider, model])"
      using assms(3) k(2) by (rule fadd_never_decreases)
    with k(1,2) v show ?thesis by auto
  qed
  from first second show ?thesis by blast
qed

theorem counter_additive_monotonic_witness:
  "\<not> flt (Finite 1) (Finite 0) \<and> \<not> flt (Finite (1 / 2)) (Finite 0)
   \<and> \<not> flt (Finite 0) (Finite 0)
   \<and> is_binary64 (child_value Map.empty [''success''])
   \<and> is_binary64 (child_value (LLM_COST_DOLLARS_TOTAL module_init) [''x'', ''unknown-model''])
   \<and> counter_inc_all Map.empty [''success''] [Finite 1, Finite (1 / 2), Finite 0]
       = Inr [[''success''] \<mapsto> Finite (3 / 2)]
   \<and> foldl fadd (child_value Map.empty [''success'']) [Finite 1, Finite (1 / 2), Finite 0]
       = Finite (3 / 2)
   \<and> \<not> flt (Finite (3 / 2)) (Finite 0)"
proof -
  have h1: "\<forall>a\<in>set [Finite 1, Finite (1 / 2), Finite 0]. \<not> flt a (Finite 0)" by simp
  have h2: "is_binary64 (child_value Map.empty [''success''])" by (simp add: child_value_def)
  have h3: "is_binary64 (child_value (LLM_COST_DOLLARS_TOTAL module_init) [''x'', ''unknown-model''])"
    by (simp add: child_value_def module_init_def)
  from counter_additive_monotonic [OF h1 h2 h3] obtain c' where
    c': "counter_inc_all Map.empty [''success''] [Finite 1, Finite (1 / 2), Finite 0] = Inr c'"
        "child_value c' [''success'']
           = foldl fadd (child_value Map.empty [''success'']) [Finite 1, Finite (1 / 2), Finite 0]"
    by blast
  have e: "counter_inc_all Map.empty [''success''] [Finite 1, Finite (1 / 2), Finite 0]
       = Inr [[''success''] \<mapsto> Finite (3 / 2)]"
    by (simp add: counter_inc_def child_value_def round_binary64_eval)
  from c' e have "foldl fadd (child_value Map.empty [''success'']) [Finite 1, Finite (1 / 2), Finite 0]
       = Finite (3 / 2)"
    by simp
  with h1 h2 h3 e show ?thesis by simp
qed

lemma fle_flt_trans: "fle v a \<Longrightarrow> flt a b \<Longrightarrow> fle v b"
  by (cases v; cases a; cases b) auto

lemma fle_PosInf: "v \<noteq> NaN \<Longrightarrow> fle v PosInf"
  by (cases v) simp_all

lemma fle_not_NaN: "fle v b \<Longrightarrow> v \<noteq> NaN"
  by (cases v) auto

lemma observe_fields:
  "upper_bounds (observe h v) = upper_bounds h"
  "observation_count (observe h v) = Suc (observation_count h)"
  "observation_sum (observe h v) = fadd (observation_sum h) v"
  "length (bucket_counts (observe h v)) = min (length (upper_bounds h)) (length (bucket_counts h))"
  by (simp_all add: observe_def)

lemma observe_bucket:
  assumes "i < length (upper_bounds h)" "length (bucket_counts h) = length (upper_bounds h)"
  shows "bucket_counts (observe h v) ! i
           = bucket_counts h ! i + (if fle v (upper_bounds h ! i) then 1 else 0)"
  using assms by (simp add: observe_def)

lemma observe_all:
  assumes "length (bucket_counts h) = length (upper_bounds h)"
  shows "upper_bounds (foldl observe h vs) = upper_bounds h
         \<and> length (bucket_counts (foldl observe h vs)) = length (upper_bounds h)
         \<and> observation_count (foldl observe h vs) = observation_count h + length vs
         \<and> observation_sum (foldl observe h vs) = foldl fadd (observation_sum h) vs
         \<and> (\<forall>i < length (upper_bounds h).
               bucket_counts (foldl observe h vs) ! i
                 = bucket_counts h ! i + length (filter (\<lambda>v. fle v (upper_bounds h ! i)) vs))"
  using assms
proof (induction vs arbitrary: h)
  case Nil
  then show ?case by simp
next
  case (Cons v vs)
  have len: "length (bucket_counts (observe h v)) = length (upper_bounds (observe h v))"
    using Cons.prems by (simp add: observe_fields)
  from Cons.IH [OF len] Cons.prems show ?case
    by (simp add: observe_fields observe_bucket)
qed

lemma count_le_mono:
  assumes "\<And>v. v \<in> set vs \<Longrightarrow> P v \<Longrightarrow> Q v"
  shows "length (filter P vs) \<le> length (filter Q vs)"
  using assms by (induction vs) auto

lemma bucket_counts_sorted:
  assumes "sorted_wrt flt bs"
  shows "sorted (map (\<lambda>b. length (filter (\<lambda>v. fle v b) vs)) (bs @ [PosInf]))"
proof -
  have "sorted_wrt (\<lambda>a b. length (filter (\<lambda>v. fle v a) vs) \<le> length (filter (\<lambda>v. fle v b) vs))
          (bs @ [PosInf])"
    unfolding sorted_wrt_append
  proof (intro conjI ballI)
    show "sorted_wrt (\<lambda>a b. length (filter (\<lambda>v. fle v a) vs) \<le> length (filter (\<lambda>v. fle v b) vs)) bs"
      using assms
      by (rule sorted_wrt_mono_rel [rotated]) (auto intro: count_le_mono fle_flt_trans)
  next
    show "sorted_wrt (\<lambda>a b. length (filter (\<lambda>v. fle v a) vs) \<le> length (filter (\<lambda>v. fle v b) vs)) [PosInf]"
      by simp
  next
    fix a b assume "a \<in> set bs" "b \<in> set [PosInf]"
    then have b: "b = PosInf" by simp
    show "length (filter (\<lambda>v. fle v a) vs) \<le> length (filter (\<lambda>v. fle v b) vs)"
      unfolding b by (rule count_le_mono) (auto dest: fle_not_NaN intro: fle_PosInf)
  qed
  then show ?thesis by (simp only: sorted_map)
qed

text \<open>
  C6. A histogram registered with the bounds \<open>bs\<close> has, after the observations \<open>v1 \<dots> vn\<close>, for
  every bound \<open>b\<close> the bucket count \<open>count (vi \<le> b)\<close>, the total count \<open>n\<close> and the sum
  \<open>v1 + \<dots> + vn\<close> (float additions, in the order of the observations). For ascending bounds
  the bucket counts do not decrease from one bound to the next, and the last bucket, of the
  bound \<open>+Infinity\<close>, counts every observation when none of them is NaN.
\<close>

theorem histogram_buckets_count_sum:
  assumes "sorted_wrt flt bs" and "NaN \<notin> set vs"
  shows "upper_bounds (foldl observe (new_histogram_child bs) vs) = bs @ [PosInf]
         \<and> bucket_counts (foldl observe (new_histogram_child bs) vs)
             = map (\<lambda>b. length (filter (\<lambda>v. fle v b) vs)) (bs @ [PosInf])
         \<and> sorted (bucket_counts (foldl observe (new_histogram_child bs) vs))
         \<and> last (bucket_counts (foldl observe (new_histogram_child bs) vs)) = length vs
         \<and> observation_count (foldl observe (new_histogram_child bs) vs) = length vs
         \<and> observation_sum (foldl observe (new_histogram_child bs) vs) = foldl fadd (Finite 0) vs"
proof -
  let ?start = "new_histogram_child bs" and ?final = "foldl observe (new_histogram_child bs) vs"
  have len0: "length (bucket_counts ?start) = length (upper_bounds ?start)"
    by (simp add: new_histogram_child_def)
  have ub0: "upper_bounds ?start = bs @ [PosInf]" by (simp add: new_histogram_child_def)
  have oc0: "observation_count ?start = 0" and os0: "observation_sum ?start = Finite 0"
    by (simp_all add: new_histogram_child_def)
  note oa = observe_all [OF len0, of vs]
  have ub: "upper_bounds ?final = bs @ [PosInf]"
    using oa by (simp only: ub0)
  have len: "length (bucket_counts ?final) = length (bs @ [PosInf])"
    using oa by (simp only: ub0)
  have cnt: "observation_count ?final = length vs"
    using oa by (simp add: oc0)
  have sm: "observation_sum ?final = foldl fadd (Finite 0) vs"
    using oa by (simp only: os0)
  have nth: "\<forall>i < length (bs @ [PosInf]).
               bucket_counts ?final ! i
                 = bucket_counts ?start ! i + length (filter (\<lambda>v. fle v ((bs @ [PosInf]) ! i)) vs)"
    using oa unfolding ub0 by blast
  have bc: "bucket_counts ?final = map (\<lambda>b. length (filter (\<lambda>v. fle v b) vs)) (bs @ [PosInf])"
  proof (rule nth_equalityI)
    show "length (bucket_counts ?final) = length (map (\<lambda>b. length (filter (\<lambda>v. fle v b) vs)) (bs @ [PosInf]))"
      using len by simp
  next
    fix i assume "i < length (bucket_counts ?final)"
    then have i: "i < length (bs @ [PosInf])" using len by simp
    then have i': "i < Suc (length bs)" by simp
    have rc: "bucket_counts ?start = replicate (Suc (length bs)) 0"
      by (simp add: new_histogram_child_def)
    have "bucket_counts ?start ! i = 0"
      unfolding rc using i' by (rule nth_replicate)
    with nth i show "bucket_counts ?final ! i = map (\<lambda>b. length (filter (\<lambda>v. fle v b) vs)) (bs @ [PosInf]) ! i"
      by (simp only: nth_map)
  qed
  have srt: "sorted (bucket_counts ?final)"
    unfolding bc using assms(1) by (rule bucket_counts_sorted)
  have "filter (\<lambda>v. fle v PosInf) vs = vs"
    using assms(2) by (intro filter_True) (metis fle_PosInf)
  then have lst: "last (bucket_counts ?final) = length vs"
    unfolding bc by (simp add: last_map)
  from ub bc srt lst cnt sm show ?thesis by blast
qed

theorem histogram_buckets_count_sum_witness:
  "sorted_wrt flt [float_lit (5 / 100), float_lit (1 / 10), float_lit (25 / 100)]
   \<and> NaN \<notin> set [float_lit (3 / 100), float_lit (2 / 10), float_lit (3 / 10)]
   \<and> bucket_counts (foldl observe
         (new_histogram_child [float_lit (5 / 100), float_lit (1 / 10), float_lit (25 / 100)])
         [float_lit (3 / 100), float_lit (2 / 10), float_lit (3 / 10)]) = [1, 1, 2, 3]
   \<and> observation_count (foldl observe
         (new_histogram_child [float_lit (5 / 100), float_lit (1 / 10), float_lit (25 / 100)])
         [float_lit (3 / 100), float_lit (2 / 10), float_lit (3 / 10)]) = 3
   \<and> observation_sum (foldl observe
         (new_histogram_child [float_lit (5 / 100), float_lit (1 / 10), float_lit (25 / 100)])
         [float_lit (3 / 100), float_lit (2 / 10), float_lit (3 / 10)]) = float_lit (53 / 100)"
proof -
  have h1: "sorted_wrt flt [float_lit (5 / 100), float_lit (1 / 10), float_lit (25 / 100)]"
    by (simp add: float_lit_def round_binary64_eval)
  have h2: "NaN \<notin> set [float_lit (3 / 100), float_lit (2 / 10), float_lit (3 / 10)]"
    by (simp add: float_lit_def round_binary64_eval)
  note t = histogram_buckets_count_sum [OF h1 h2]
  have b: "bucket_counts (foldl observe
         (new_histogram_child [float_lit (5 / 100), float_lit (1 / 10), float_lit (25 / 100)])
         [float_lit (3 / 100), float_lit (2 / 10), float_lit (3 / 10)]) = [1, 1, 2, 3]"
    using t by (simp add: float_lit_def round_binary64_eval)
  have c: "observation_count (foldl observe
         (new_histogram_child [float_lit (5 / 100), float_lit (1 / 10), float_lit (25 / 100)])
         [float_lit (3 / 100), float_lit (2 / 10), float_lit (3 / 10)]) = 3"
    using t by simp
  have s: "observation_sum (foldl observe
         (new_histogram_child [float_lit (5 / 100), float_lit (1 / 10), float_lit (25 / 100)])
         [float_lit (3 / 100), float_lit (2 / 10), float_lit (3 / 10)]) = float_lit (53 / 100)"
    using t by (simp add: float_lit_def round_binary64_eval)
  from h1 h2 b c s show ?thesis by blast
qed

text \<open>
  C4, as the code has it. The module declares the 19 instruments of the table of section
  4.1, in the order of the table: the same names, kinds, label names in order and, for the
  histograms, the same bucket boundaries. There are five histograms (and one info record,
  ten counters and three gauges). The 19 names are distinct, and the boundaries of every
  histogram are strictly ascending, as decimals and as the floats the histogram is
  registered with.
\<close>

theorem instrument_definitions_match_spec:
  "map instrument_row instrument_definitions = spec_instrument_table
   \<and> length instrument_definitions = 19
   \<and> distinct (map instrument_name instrument_definitions)
   \<and> length (filter (\<lambda>i. instrument_kind_of i = KHistogram) instrument_definitions) = 5
   \<and> length (filter (\<lambda>i. instrument_kind_of i = KCounter) instrument_definitions) = 10
   \<and> length (filter (\<lambda>i. instrument_kind_of i = KGauge) instrument_definitions) = 3
   \<and> length (filter (\<lambda>i. instrument_kind_of i = KInfo) instrument_definitions) = 1
   \<and> list_all (\<lambda>i. sorted_wrt flt (bucket_bounds i)) instrument_definitions
   \<and> list_all (\<lambda>i. case instrument_buckets i of None \<Rightarrow> True | Some bs \<Rightarrow> sorted_wrt (<) bs)
         instrument_definitions
   \<and> instrument_row (instrument_definitions ! 2)
       = (''careplan_order_create_duration_seconds'', KHistogram, [],
          Some [5 / 100, 1 / 10, 25 / 100, 5 / 10, 1, 25 / 10, 5, 10])"
proof -
  have a: "map instrument_row instrument_definitions = spec_instrument_table"
    by (simp add: instrument_definitions_def spec_instrument_table_def instrument_row_def)
  have b: "length instrument_definitions = 19"
    by (simp add: instrument_definitions_def)
  have c: "distinct (map instrument_name instrument_definitions)"
    by (simp add: instrument_definitions_def)
  have d: "length (filter (\<lambda>i. instrument_kind_of i = KHistogram) instrument_definitions) = 5"
    "length (filter (\<lambda>i. instrument_kind_of i = KCounter) instrument_definitions) = 10"
    "length (filter (\<lambda>i. instrument_kind_of i = KGauge) instrument_definitions) = 3"
    "length (filter (\<lambda>i. instrument_kind_of i = KInfo) instrument_definitions) = 1"
    by (simp_all add: instrument_definitions_def)
  have e: "list_all (\<lambda>i. sorted_wrt flt (bucket_bounds i)) instrument_definitions"
    by (simp add: instrument_definitions_def bucket_bounds_def float_lit_def round_binary64_eval)
  have f: "list_all (\<lambda>i. case instrument_buckets i of None \<Rightarrow> True | Some bs \<Rightarrow> sorted_wrt (<) bs)
         instrument_definitions"
    by (simp add: instrument_definitions_def)
  have g: "instrument_row (instrument_definitions ! 2)
       = (''careplan_order_create_duration_seconds'', KHistogram, [],
          Some [5 / 100, 1 / 10, 25 / 100, 5 / 10, 1, 25 / 10, 5, 10])"
    by (simp add: instrument_definitions_def instrument_row_def)
  from a b c d e f g show ?thesis by blast
qed

theorem instrument_definitions_match_spec_witness:
  "map instrument_name instrument_definitions = map fst spec_instrument_table
   \<and> instrument_name (instrument_definitions ! 12) = ''careplan_llm_cost_dollars_total''
   \<and> instrument_labelnames (instrument_definitions ! 12) = [''provider'', ''model'']"
proof -
  from instrument_definitions_match_spec
  have "map instrument_row instrument_definitions = spec_instrument_table" by (rule conjunct1)
  then have "map fst (map instrument_row instrument_definitions) = map fst spec_instrument_table"
    by (rule arg_cong)
  then have "map instrument_name instrument_definitions = map fst spec_instrument_table"
    by (simp add: instrument_row_def comp_def)
  then show ?thesis by (simp add: instrument_definitions_def)
qed

text \<open>
  C4 as stated speaks of six histograms: the module, like the table of the specification,
  has five.
\<close>

theorem six_histograms_counterexample:
  "length (filter (\<lambda>i. instrument_kind_of i = KHistogram) instrument_definitions) \<noteq> 6
   \<and> length (filter (\<lambda>r. fst (snd r) = KHistogram) spec_instrument_table) \<noteq> 6
   \<and> map instrument_name (filter (\<lambda>i. instrument_kind_of i = KHistogram) instrument_definitions)
       = [''careplan_order_create_duration_seconds'', ''careplan_generation_duration_seconds'',
          ''careplan_llm_request_duration_seconds'', ''careplan_api_request_duration_seconds'',
          ''careplan_db_query_duration_seconds'']"
  by (simp add: instrument_definitions_def spec_instrument_table_def)

end
